theory Spec2Isabelle
  imports Main "HOL-Library.AList" "HOL-Library.List_Lexorder" "HOL-Library.Sublist"
begin

section \<open>Python values\<close>

text \<open>
  A Python \<^verbatim>\<open>str\<close> is a sequence of Unicode code points. HOL's \<open>char\<close> has eight bits,
  while \<^verbatim>\<open>chr(65 + idx)\<close> in \<^verbatim>\<open>_process_problems\<close> leaves that range for long problem
  lists, so a string is a list of code points here. \<open>lit\<close> turns a HOL string literal into
  such a list.
\<close>

type_synonym pystr = "nat list"

definition lit :: "string \<Rightarrow> pystr" where
  "lit s = map of_char s"

text \<open>
  The decoded body of a response (\<^verbatim>\<open>resp.json()\<close>). A JSON object is the list of the items
  of the Python dict, in insertion order, with distinct keys. JSON numbers with a fraction
  or an exponent (Python floats) are not part of the model.
\<close>

datatype json =
    JNull
  | JBool bool
  | JInt int
  | JStr pystr
  | JArr "json list"
  | JObj "(pystr \<times> json) list"

text \<open>The exceptions of the source: its own two classes and the built-in ones it can raise.\<close>

datatype error =
    PTAAuthError pystr
  | PTAAPIError pystr
  | ValueError pystr
  | TypeError
  | AttributeError
  | KeyError
  | IndexError

type_synonym 'a result = "error + 'a"

text \<open>Truth value of a Python object (\<^verbatim>\<open>if not x\<close>).\<close>

fun truthy :: "json \<Rightarrow> bool" where
  "truthy JNull = False"
| "truthy (JBool b) = b"
| "truthy (JInt n) = (n \<noteq> 0)"
| "truthy (JStr s) = (s \<noteq> [])"
| "truthy (JArr xs) = (xs \<noteq> [])"
| "truthy (JObj kvs) = (kvs \<noteq> [])"

text \<open>
  A dict key: \<^verbatim>\<open>True\<close> and \<^verbatim>\<open>1\<close> (and \<^verbatim>\<open>False\<close> and \<^verbatim>\<open>0\<close>) are the same key, lists and
  dicts are unhashable (\<^verbatim>\<open>TypeError\<close>).
\<close>

fun py_key :: "json \<Rightarrow> json result" where
  "py_key (JBool b) = Inr (JInt (if b then 1 else 0))"
| "py_key (JArr xs) = Inl TypeError"
| "py_key (JObj kvs) = Inl TypeError"
| "py_key v = Inr v"

text \<open>\<^verbatim>\<open>d.get(k, default)\<close> on a decoded value: a value that is no dict has no \<^verbatim>\<open>get\<close>.\<close>

fun dict_get :: "json \<Rightarrow> pystr \<Rightarrow> json \<Rightarrow> json result" where
  "dict_get (JObj kvs) k d = Inr (case map_of kvs k of Some v \<Rightarrow> v | None \<Rightarrow> d)"
| "dict_get _ k d = Inl AttributeError"

text \<open>\<^verbatim>\<open>d[k]\<close> on a decoded dict with a string key.\<close>

fun dict_index :: "json \<Rightarrow> pystr \<Rightarrow> json result" where
  "dict_index (JObj kvs) k = (case map_of kvs k of Some v \<Rightarrow> Inr v | None \<Rightarrow> Inl KeyError)"
| "dict_index _ k = Inl TypeError"

text \<open>
  \<^verbatim>\<open>a == b\<close> on decoded values: \<^verbatim>\<open>True == 1\<close> and \<^verbatim>\<open>False == 0\<close> hold, and two dicts are
  equal when they have the same items in any order. \<open>canon\<close> brings a value to the form in
  which equal values are identical.
\<close>

fun canon :: "json \<Rightarrow> json" where
  "canon (JBool b) = JInt (if b then 1 else 0)"
| "canon (JArr xs) = JArr (map canon xs)"
| "canon (JObj kvs) = JObj (sort_key fst (map (\<lambda>(k, v). (k, canon v)) kvs))"
| "canon v = v"

definition py_eq :: "json \<Rightarrow> json \<Rightarrow> bool" where
  "py_eq a b = (canon a = canon b)"

text \<open>
  \<^verbatim>\<open>for x in v\<close>: the elements of a list, the characters of a string, the keys of a dict;
  nothing else can be iterated. \<^verbatim>\<open>v[-1]\<close> and \<^verbatim>\<open>len(v)\<close> likewise.
\<close>

fun py_iter :: "json \<Rightarrow> json list result" where
  "py_iter (JArr xs) = Inr xs"
| "py_iter (JStr s) = Inr (map (\<lambda>c. JStr [c]) s)"
| "py_iter (JObj kvs) = Inr (map (\<lambda>(k, v). JStr k) kvs)"
| "py_iter _ = Inl TypeError"

fun py_last :: "json \<Rightarrow> json result" where
  "py_last (JArr xs) = (if xs = [] then Inl IndexError else Inr (last xs))"
| "py_last (JStr s) = (if s = [] then Inl IndexError else Inr (JStr [last s]))"
| "py_last (JObj kvs) = Inl KeyError"
| "py_last _ = Inl TypeError"

fun py_len :: "json \<Rightarrow> int result" where
  "py_len (JArr xs) = Inr (int (length xs))"
| "py_len (JStr s) = Inr (int (length s))"
| "py_len (JObj kvs) = Inr (int (length kvs))"
| "py_len _ = Inl TypeError"

text \<open>Sequencing of computations that may raise.\<close>

definition rbind :: "'a result \<Rightarrow> ('a \<Rightarrow> 'b result) \<Rightarrow> 'b result" where
  "rbind r f = (case r of Inl e \<Rightarrow> Inl e | Inr x \<Rightarrow> f x)"

section \<open>The generator's lookup tables\<close>

text \<open>\<^verbatim>\<open>self.result_map\<close> of \<^verbatim>\<open>__init__\<close>: platform status to judgement acronym.\<close>

definition result_map :: "(pystr \<times> pystr) list" where
  "result_map =
    [(lit ''ACCEPTED'', lit ''AC''),
     (lit ''WRONG_ANSWER'', lit ''WA''),
     (lit ''TIME_LIMIT_EXCEEDED'', lit ''TLE''),
     (lit ''COMPILE_ERROR'', lit ''CE''),
     (lit ''SEGMENTATION_FAULT'', lit ''SF''),
     (lit ''FLOAT_POINT_EXCEPTION'', lit ''FPE''),
     (lit ''MEMORY_LIMIT_EXCEEDED'', lit ''MLE''),
     (lit ''NON_ZERO_EXIT_CODE'', lit ''NZEC''),
     (lit ''RUNTIME_ERROR'', lit ''RE''),
     (lit ''PRESENTATION_ERROR'', lit ''PE''),
     (lit ''OUTPUT_LIMIT_EXCEEDED'', lit ''OLE'')]"

text \<open>\<^verbatim>\<open>self.compiler_map\<close> of \<^verbatim>\<open>__init__\<close>: compiler name to language id.\<close>

definition compiler_map :: "(pystr \<times> pystr) list" where
  "compiler_map =
    [(lit ''GCC'', lit ''1''), (lit ''CLANG'', lit ''1''),
     (lit ''GXX'', lit ''2''), (lit ''CLANGXX'', lit ''2''), (lit ''C++'', lit ''2''),
     (lit ''JAVA'', lit ''3''),
     (lit ''PYTHON3'', lit ''4''), (lit ''PYPY3'', lit ''4'')]"

text \<open>
  \<^verbatim>\<open>table.get(key, default)\<close> on a table whose keys are all strings, with any decoded
  value as the key: only a string can be found, an unhashable key raises.
\<close>

fun table_get :: "(pystr \<times> pystr) list \<Rightarrow> json \<Rightarrow> pystr \<Rightarrow> pystr result" where
  "table_get t (JStr s) d = Inr (case map_of t s of Some v \<Rightarrow> v | None \<Rightarrow> d)"
| "table_get t (JArr xs) d = Inl TypeError"
| "table_get t (JObj kvs) d = Inl TypeError"
| "table_get t v d = Inr d"

text \<open>
  \<^verbatim>\<open>result_acronym = self.result_map.get(pta_status, "WA")\<close> of \<^verbatim>\<open>_add_submission_node\<close>.
\<close>

definition result_acronym :: "json \<Rightarrow> pystr result" where
  "result_acronym pta_status = table_get result_map pta_status (lit ''WA'')"

section \<open>Strings and numbers\<close>

text \<open>\<^verbatim>\<open>str(n)\<close> for an integer: decimal digits, most significant first.\<close>

fun digits :: "nat \<Rightarrow> pystr" where
  "digits n = (if n < 10 then [48 + n] else digits (n div 10) @ [48 + n mod 10])"

declare digits.simps [simp del]

definition str_int :: "int \<Rightarrow> pystr" where
  "str_int i = (if i < 0 then 45 # digits (nat (- i)) else digits (nat i))"

text \<open>\<^verbatim>\<open>format(i, "02d")\<close>: zero-padded to width two, the sign counting for the width.\<close>

definition fmt_02d :: "int \<Rightarrow> pystr" where
  "fmt_02d i =
     (if i < 0 then 45 # digits (nat (- i))
      else if i < 10 then 48 # digits (nat i)
      else digits (nat i))"

text \<open>\<^verbatim>\<open>chr(i)\<close>: one code point, \<^verbatim>\<open>ValueError\<close> outside \<^verbatim>\<open>range(0x110000)\<close>.\<close>

definition py_chr :: "int \<Rightarrow> pystr result" where
  "py_chr i =
     (if 0 \<le> i \<and> i < 1114112 then Inr [nat i]
      else Inl (ValueError (lit ''chr() arg not in range(0x110000)'')))"

text \<open>\<^verbatim>\<open>sub in s\<close> for strings.\<close>

fun contains :: "pystr \<Rightarrow> pystr \<Rightarrow> bool" where
  "contains [] sub = (sub = [])"
| "contains (c # cs) sub = (take (length sub) (c # cs) = sub \<or> contains cs sub)"

text \<open>\<^verbatim>\<open>s.endswith("Z")\<close> and \<^verbatim>\<open>s.replace(old, new)\<close> for a one-character \<^verbatim>\<open>old\<close>.\<close>

definition endswith_Z :: "pystr \<Rightarrow> bool" where
  "endswith_Z s = (s \<noteq> [] \<and> last s = 90)"

definition replace_char :: "nat \<Rightarrow> pystr \<Rightarrow> pystr \<Rightarrow> pystr" where
  "replace_char old new s = concat (map (\<lambda>c. if c = old then new else [c]) s)"

section \<open>Dates and times\<close>

text \<open>
  A \<^verbatim>\<open>datetime\<close>: its calendar fields as microseconds since 1970-01-01T00:00:00 on its own
  clock, and the offset of its time zone from UTC in microseconds (\<open>None\<close> for a naive
  value). The range of \<^verbatim>\<open>datetime\<close> (years 1 to 9999) is not modelled.
\<close>

record datetime =
  wall_us :: int
  utcoffset :: "int option"

text \<open>
  \<^verbatim>\<open>a - b\<close>, a \<^verbatim>\<open>timedelta\<close> in microseconds. Python refuses to subtract a naive value
  from an aware one and the reverse.
\<close>

definition dt_sub :: "datetime \<Rightarrow> datetime \<Rightarrow> int result" where
  "dt_sub a b =
     (case (utcoffset a, utcoffset b) of
        (None, None) \<Rightarrow> Inr (wall_us a - wall_us b)
      | (Some oa, Some ob) \<Rightarrow> Inr ((wall_us a - oa) - (wall_us b - ob))
      | _ \<Rightarrow> Inl TypeError)"

text \<open>
  \<^verbatim>\<open>int(delta.total_seconds())\<close>. \<^verbatim>\<open>total_seconds\<close> divides the microseconds of the
  \<^verbatim>\<open>timedelta\<close> by \<open>10\<^sup>6\<close> with the true division of integers, whose result is the double
  nearest to the quotient, ties going to the even mantissa; \<^verbatim>\<open>int\<close> then drops the fraction,
  rounding towards zero.

  \<open>bit_length\<close> is \<^verbatim>\<open>int.bit_length\<close>. \<open>true_div a b\<close> is the double \<^verbatim>\<open>a / b\<close> for \<open>a \<ge> 0\<close> and
  \<open>b > 0\<close>, given as the pair \<open>(m, s)\<close> that stands for \<open>m \<sqdot> 2\<^sup>-\<^sup>s\<close>: \<open>e\<close> is the exponent of the
  quotient (\<open>2\<^sup>e \<le> a / b < 2\<^sup>e\<^sup>+\<^sup>1\<close>) and \<open>m\<close> the quotient scaled to 53 bits and rounded. The
  limits of the exponent of a double are not modelled: a \<^verbatim>\<open>timedelta\<close> stays below \<open>10\<^sup>9\<close>
  days, far from them.
\<close>

fun bit_length :: "nat \<Rightarrow> nat" where
  "bit_length n = (if n = 0 then 0 else Suc (bit_length (n div 2)))"

declare bit_length.simps [simp del]

definition round_half_even :: "int \<Rightarrow> int \<Rightarrow> int" where
  "round_half_even a b =
     (let q = a div b; r = a mod b
      in if 2 * r < b \<or> (2 * r = b \<and> even q) then q else q + 1)"

definition true_div :: "nat \<Rightarrow> nat \<Rightarrow> int \<times> int" where
  "true_div a b =
     (let k = int (bit_length a) - int (bit_length b);
          e = (if b * 2 ^ nat k \<le> a * 2 ^ nat (- k) then k else k - 1);
          s = 52 - e
      in (round_half_even (int a * 2 ^ nat s) (int b * 2 ^ nat (- s)), s))"

text \<open>\<^verbatim>\<open>int(x)\<close> for a double \<open>x \<ge> 0\<close> given as such a pair.\<close>

definition float_trunc :: "int \<times> int \<Rightarrow> int" where
  "float_trunc = (\<lambda>(m, s). if 0 \<le> s then m div 2 ^ nat s else m * 2 ^ nat (- s))"

definition total_seconds_int :: "int \<Rightarrow> int" where
  "total_seconds_int us =
     (if 0 \<le> us then float_trunc (true_div (nat us) 1000000)
      else - float_trunc (true_div (nat (- us)) 1000000))"

section \<open>The document tree\<close>

text \<open>
  An \<^verbatim>\<open>xml.etree.ElementTree.Element\<close>: tag, text, tail and children. Text and tail hold
  whatever the code assigns (\<open>JNull\<close> is \<^verbatim>\<open>None\<close>); only writing the file insists on strings.
\<close>

datatype xml = Elem (etag: pystr) (etext: json) (etail: json) (kids: "xml list")

text \<open>
  \<^verbatim>\<open>ET.SubElement(parent, tag)\<close> appends a new element to the parent's children;
  \<open>leaf\<close> is such an element once its text is assigned.
\<close>

definition leaf :: "string \<Rightarrow> json \<Rightarrow> xml" where
  "leaf t v = Elem (lit t) v JNull []"

definition sub_element :: "xml \<Rightarrow> xml \<Rightarrow> xml" where
  "sub_element parent child = Elem (etag parent) (etext parent) (etail parent) (kids parent @ [child])"

section \<open>Library functions and the remote service\<close>

text \<open>
  The functions of Python's library and of \<^verbatim>\<open>requests\<close> that the code calls and whose
  results this development does not compute are parameters:
  \<^item> \<open>fromisoformat\<close>: \<^verbatim>\<open>datetime.fromisoformat\<close>;
  \<^item> \<open>local_to_utc\<close>: the system's local time zone, as \<^verbatim>\<open>astimezone\<close> applies it to a
    naive value (wall clock microseconds to UTC microseconds);
  \<^item> \<open>str_upper\<close>, \<open>str_strip\<close>: \<^verbatim>\<open>str.upper\<close> and \<^verbatim>\<open>str.strip\<close>;
  \<^item> \<open>repr\<close>: \<^verbatim>\<open>str\<close> of a list or a dict;
  \<^item> \<open>format_f d us\<close>: \<^verbatim>\<open>format(us / 10**6, ".df")\<close>, the text of a POSIX timestamp given
    in microseconds, with \<open>d\<close> decimals;
  \<^item> \<open>dict_update_other\<close>: the items \<^verbatim>\<open>dict.update\<close> stores from an argument that is no
    dict, and the exception that ends it, if any;
  \<^item> \<open>et_write root path\<close>: what \<^verbatim>\<open>ElementTree.write\<close> leaves in the file at \<open>path\<close>
    (\<open>None\<close> when the file cannot be opened) and the exception it raises, if any.
\<close>

record env =
  fromisoformat :: "pystr \<Rightarrow> datetime result"
  local_to_utc :: "int \<Rightarrow> int result"
  str_upper :: "pystr \<Rightarrow> pystr"
  str_strip :: "pystr \<Rightarrow> pystr"
  repr :: "json \<Rightarrow> pystr"
  format_f :: "nat \<Rightarrow> int \<Rightarrow> pystr"
  dict_update_other :: "json \<Rightarrow> (json \<times> json) list \<times> error option"
  et_write :: "xml \<Rightarrow> pystr \<Rightarrow> pystr option \<times> error option"

text \<open>\<^verbatim>\<open>str(v)\<close>, also what an f-string puts for \<^verbatim>\<open>{v}\<close>.\<close>

fun py_str :: "env \<Rightarrow> json \<Rightarrow> pystr" where
  "py_str E JNull = lit ''None''"
| "py_str E (JBool b) = (if b then lit ''True'' else lit ''False'')"
| "py_str E (JInt n) = str_int n"
| "py_str E (JStr s) = s"
| "py_str E v = repr E v"

text \<open>\<^verbatim>\<open>dt.astimezone(timezone.utc)\<close>.\<close>

definition astimezone_utc :: "env \<Rightarrow> datetime \<Rightarrow> datetime result" where
  "astimezone_utc E dt =
     (case utcoffset dt of
        Some off \<Rightarrow> Inr \<lparr>wall_us = wall_us dt - off, utcoffset = Some 0\<rparr>
      | None \<Rightarrow>
          (case local_to_utc E (wall_us dt) of
             Inl e \<Rightarrow> Inl e
           | Inr u \<Rightarrow> Inr \<lparr>wall_us = u, utcoffset = Some 0\<rparr>))"

text \<open>
  A request is the URL and the query parameters (\<open>None\<close> when the caller passes none).
  A response is what the code reads of it: the status, the \<^verbatim>\<open>Content-Type\<close> header if
  there is one, the body as text, and the result of \<^verbatim>\<open>resp.json()\<close> (\<open>Inl\<close> the message of
  the decoding error).
\<close>

type_synonym request = "pystr \<times> (pystr \<times> json) list option"

record response =
  status_code :: int
  content_type :: "pystr option"
  body_text :: pystr
  body_json :: "pystr + json"

text \<open>
  The remote service answers the \<open>n\<close>-th request of a run (counted from 0), after the
  session's retries: \<open>Inl\<close> is the message of a \<^verbatim>\<open>requests.RequestException\<close>, \<open>Inr\<close> a
  response.
\<close>

type_synonym api = "nat \<Rightarrow> request \<Rightarrow> pystr + response"

section \<open>The generator's state\<close>

record label =
  xml_id :: pystr
  letter :: pystr

text \<open>
  The attributes of a \<^verbatim>\<open>PTAContestGenerator\<close>, followed by what the run does to the outside:
  the requests sent so far, the content of \<^verbatim>\<open>pta_error_dump.html\<close> and the files written by
  \<^verbatim>\<open>_save_xml\<close> (path and bytes). A dict is the list of its items; assignment is
  \<open>AList.update\<close>, which keeps the place of a key that is already there.
\<close>

record state =
  organization :: pystr
  region_id :: pystr
  selected_problem_set_id :: json
  contest_root :: "xml option"
  label_map :: "(json \<times> label) list"
  exam_info :: json
  contest_start_dt :: "datetime option"
  exam_by_user_id :: "(json \<times> json) list"
  student_user_by_id :: "(json \<times> json) list"
  requests :: "request list"
  error_dump :: "pystr option"
  written :: "(pystr \<times> pystr) list"

text \<open>\<^verbatim>\<open>PTAContestGenerator(organization, region_id)\<close> in a world where nothing has happened.\<close>

definition init :: "pystr \<Rightarrow> pystr \<Rightarrow> state" where
  "init org reg =
     \<lparr>organization = org, region_id = reg, selected_problem_set_id = JNull,
      contest_root = None, label_map = [], exam_info = JObj [],
      contest_start_dt = None, exam_by_user_id = [], student_user_by_id = [],
      requests = [], error_dump = None, written = []\<rparr>"

text \<open>
  A method is a function from the state to its outcome and the state it leaves: an
  exception keeps every change made before it was raised.
\<close>

type_synonym 'a prog = "state \<Rightarrow> 'a result \<times> state"

definition ret :: "'a \<Rightarrow> 'a prog" where
  "ret x = (\<lambda>s. (Inr x, s))"

definition raise :: "error \<Rightarrow> 'a prog" where
  "raise e = (\<lambda>s. (Inl e, s))"

definition lift :: "'a result \<Rightarrow> 'a prog" where
  "lift r = (\<lambda>s. (r, s))"

definition bnd :: "'a prog \<Rightarrow> ('a \<Rightarrow> 'b prog) \<Rightarrow> 'b prog" where
  "bnd m f = (\<lambda>s. case m s of (Inl e, s') \<Rightarrow> (Inl e, s') | (Inr x, s') \<Rightarrow> f x s')"

definition modify :: "(state \<Rightarrow> state) \<Rightarrow> unit prog" where
  "modify f = (\<lambda>s. (Inr (), f s))"

definition gets :: "(state \<Rightarrow> 'a) \<Rightarrow> 'a prog" where
  "gets f = (\<lambda>s. (Inr (f s), s))"

text \<open>A \<^verbatim>\<open>for\<close> loop over a list.\<close>

primrec for_each :: "('a \<Rightarrow> unit prog) \<Rightarrow> 'a list \<Rightarrow> unit prog" where
  "for_each f [] = ret ()"
| "for_each f (x # xs) = bnd (f x) (\<lambda>_. for_each f xs)"

section \<open>Requests\<close>

text \<open>The texts of the exceptions, as code points.\<close>

definition msg_auth :: pystr where
  "msg_auth = [35748, 35777, 22833, 36133, 32, 91, 52, 48, 49, 93, 12290, 35831, 26816,
     26597, 32, 67, 111, 111, 107, 105, 101, 12290]"

definition msg_not_json :: "int \<Rightarrow> pystr \<Rightarrow> pystr" where
  "msg_not_json status snippet =
     [26399, 26395, 32, 74, 83, 79, 78, 32, 20294, 25910, 21040, 32, 72, 84, 77, 76, 32, 40,
      29366, 24577, 30721, 32] @ str_int status @
     [41, 12290, 20869, 23481, 29255, 27573, 58, 32] @ snippet @ [46, 46, 46]"

definition msg_status :: "int \<Rightarrow> pystr" where
  "msg_status status =
     [65, 80, 73, 32, 35831, 27714, 22833, 36133, 65292, 29366, 24577, 30721, 58, 32] @
     str_int status"

definition msg_network :: "pystr \<Rightarrow> pystr" where
  "msg_network e = [32593, 32476, 36830, 25509, 24213, 23618, 38169, 35823, 58, 32] @ e"

definition msg_select_first :: pystr where
  "msg_select_first = [35831, 20808, 36873, 25321, 39064, 30446, 38598]"

text \<open>
  \<^verbatim>\<open>_safe_request\<close>. The request is sent; a response with a status other than 200 or a
  content type without \<^verbatim>\<open>application/json\<close> is written to \<^verbatim>\<open>pta_error_dump.html\<close> and
  raised as an exception; otherwise \<^verbatim>\<open>resp.json()\<close> is returned. A body that does not decode
  raises \<^verbatim>\<open>requests.JSONDecodeError\<close>, a \<^verbatim>\<open>RequestException\<close> since requests 2.27, which the
  handler turns into \<^verbatim>\<open>PTAAPIError\<close> like a failure of the transport. Writing the dump
  file is taken to succeed; printing and logging are left out.
\<close>

definition safe_request :: "api \<Rightarrow> pystr \<Rightarrow> (pystr \<times> json) list option \<Rightarrow> json prog" where
  "safe_request A url params = (\<lambda>s.
     let s1 = s\<lparr>requests := requests s @ [(url, params)]\<rparr> in
     case A (length (requests s)) (url, params) of
       Inl e \<Rightarrow> (Inl (PTAAPIError (msg_network e)), s1)
     | Inr resp \<Rightarrow>
         let ctype = (case content_type resp of Some c \<Rightarrow> c | None \<Rightarrow> []);
             is_error = (status_code resp \<noteq> 200);
             is_not_json = (\<not> contains ctype (lit ''application/json''))
         in if is_error \<or> is_not_json then
              let s2 = s1\<lparr>error_dump := Some (body_text resp)\<rparr> in
              if status_code resp = 401 then (Inl (PTAAuthError msg_auth), s2)
              else if is_not_json then
                let snippet = map (\<lambda>c. if c = 10 then 32 else c) (take 100 (body_text resp))
                in (Inl (PTAAPIError (msg_not_json (status_code resp) snippet)), s2)
              else (Inl (PTAAPIError (msg_status (status_code resp))), s2)
            else
              (case body_json resp of
                 Inl e \<Rightarrow> (Inl (PTAAPIError (msg_network e)), s1)
               | Inr j \<Rightarrow> (Inr j, s1)))"

definition api_base :: pystr where
  "api_base = lit ''https://pintia.cn/api/problem-sets/''"

text \<open>\<^verbatim>\<open>select_problem_set\<close>: the id is stored, then the probe is sent.\<close>

definition select_problem_set :: "env \<Rightarrow> api \<Rightarrow> json \<Rightarrow> unit prog" where
  "select_problem_set E A problem_set_id =
     bnd (modify (\<lambda>s. s\<lparr>selected_problem_set_id := problem_set_id\<rparr>)) (\<lambda>_.
     bnd (safe_request A (api_base @ py_str E problem_set_id @ lit ''/exams'') None) (\<lambda>_.
     ret ()))"

section \<open>Building the document\<close>

text \<open>\<^verbatim>\<open>ET.SubElement(self.contest_root, ...)\<close>, with the children the code then gives it.\<close>

definition sub_element_root :: "xml \<Rightarrow> unit prog" where
  "sub_element_root child = (\<lambda>s.
     case contest_root s of
       None \<Rightarrow> (Inl TypeError, s)
     | Some r \<Rightarrow> (Inr (), s\<lparr>contest_root := Some (sub_element r child)\<rparr>))"

definition init_xml_structure :: "unit prog" where
  "init_xml_structure =
     modify (\<lambda>s. s\<lparr>contest_root := Some (Elem (lit ''contest'') JNull JNull [])\<rparr>)"

subsection \<open>Contest information\<close>

text \<open>The local function \<^verbatim>\<open>parse_time\<close> of \<^verbatim>\<open>_process_exam_info\<close>.\<close>

definition parse_time :: "env \<Rightarrow> json \<Rightarrow> datetime result" where
  "parse_time E time_str =
     (case time_str of
        JStr t \<Rightarrow>
          if endswith_Z t then fromisoformat E (replace_char 90 (lit ''+00:00'') t)
          else fromisoformat E t
      | _ \<Rightarrow> Inl AttributeError)"

text \<open>
  Lines 238 to 246: the value of \<^verbatim>\<open>duration_sec\<close> after the \<^verbatim>\<open>if\<close>. The comparison
  \<^verbatim>\<open>duration_sec <= 0\<close> takes a number (\<^verbatim>\<open>True\<close> is 1) and raises on anything else; the
  default 18000 is reached when the subtraction raises.
\<close>

definition duration_sec :: "json \<Rightarrow> datetime \<Rightarrow> datetime \<Rightarrow> int result" where
  "duration_sec duration start_dt end_dt =
     (let computed =
        (case dt_sub end_dt start_dt of
           Inl e \<Rightarrow> 18000
         | Inr delta \<Rightarrow> total_seconds_int delta)
      in case duration of
           JInt n \<Rightarrow> Inr (if n \<le> 0 then computed else n)
         | JBool b \<Rightarrow> Inr (if b then 1 else computed)
         | _ \<Rightarrow> Inl TypeError)"

text \<open>
  Lines 249 to 251: \<^verbatim>\<open>divmod\<close> twice and the f-string. \<^verbatim>\<open>divmod\<close> rounds towards minus
  infinity, as \<open>div\<close> and \<open>mod\<close> on \<open>int\<close> do.
\<close>

definition duration_str :: "int \<Rightarrow> pystr" where
  "duration_str d =
     (let m0 = d div 60; s = d mod 60; h = m0 div 60; m = m0 mod 60
      in str_int h @ lit '':'' @ fmt_02d m @ lit '':'' @ fmt_02d s)"

definition info_children :: "env \<Rightarrow> json \<Rightarrow> json \<Rightarrow> datetime \<Rightarrow> int \<Rightarrow> xml list" where
  "info_children E name cid start d =
     [leaf ''title'' name,
      leaf ''short-title'' name,
      leaf ''contest-id'' (JStr (py_str E cid)),
      leaf ''starttime'' (JStr (format_f E 1 (wall_us start))),
      leaf ''length'' (JStr (duration_str d)),
      leaf ''penalty'' (JStr (lit ''20'')),
      leaf ''started'' (JStr (lit ''False'')),
      leaf ''scoreboard-freeze-length'' (JStr (lit ''1:00:00''))]"

text \<open>The children go to the \<^verbatim>\<open>info\<close> element, the last child of the root when they are added.\<close>

definition extend_last :: "xml list \<Rightarrow> unit prog" where
  "extend_last cs = (\<lambda>s.
     case contest_root s of
       None \<Rightarrow> (Inl TypeError, s)
     | Some r \<Rightarrow>
         (if kids r = [] then (Inl TypeError, s)
          else (Inr (), s\<lparr>contest_root := Some (Elem (etag r) (etext r) (etail r)
                  (butlast (kids r) @ [Elem (etag (last (kids r))) (etext (last (kids r)))
                     (etail (last (kids r))) (kids (last (kids r)) @ cs)]))\<rparr>)))"

definition process_exam_info :: "env \<Rightarrow> api \<Rightarrow> unit prog" where
  "process_exam_info E A =
     bnd (gets selected_problem_set_id) (\<lambda>sid.
     bnd (safe_request A (api_base @ py_str E sid) None) (\<lambda>data.
     bnd (modify (\<lambda>s. s\<lparr>exam_info := data\<rparr>)) (\<lambda>_.
     bnd (sub_element_root (Elem (lit ''info'') JNull JNull [])) (\<lambda>_.
     bnd (lift (dict_get data (lit ''problemSet'') (JObj []))) (\<lambda>problem_set.
     bnd (lift (dict_get problem_set (lit ''startAt'') (JStr (lit ''1970-01-01T00:00:00Z'')))) (\<lambda>start_at_str.
     bnd (lift (dict_get problem_set (lit ''endAt'') (JStr (lit ''1970-01-01T00:00:00Z'')))) (\<lambda>end_at_str.
     bnd (lift (parse_time E start_at_str)) (\<lambda>start_dt.
     bnd (lift (parse_time E end_at_str)) (\<lambda>end_dt.
     bnd (lift (astimezone_utc E start_dt)) (\<lambda>start.
     bnd (modify (\<lambda>s. s\<lparr>contest_start_dt := Some start\<rparr>)) (\<lambda>_.
     bnd (lift (dict_get problem_set (lit ''duration'') (JInt 0))) (\<lambda>duration.
     bnd (lift (duration_sec duration start_dt end_dt)) (\<lambda>d.
     bnd (lift (dict_get problem_set (lit ''name'') (JStr (lit ''PTA Contest'')))) (\<lambda>name.
     bnd (lift (dict_get problem_set (lit ''id'') (JStr (lit ''0'')))) (\<lambda>cid.
     extend_last (info_children E name cid start d))))))))))))))))"

subsection \<open>Static definitions\<close>

definition judgements_conf :: "(string \<times> string \<times> string \<times> string \<times> string) list" where
  "judgements_conf =
    [(''1'', ''AC'', ''ACCEPTED'', ''true'', ''false''),
     (''2'', ''SF'', ''SEGMENTATION_FAULT'', ''false'', ''true''),
     (''3'', ''WA'', ''WRONG_ANSWER'', ''false'', ''true''),
     (''4'', ''TLE'', ''TIME_LIMIT_EXCEEDED'', ''false'', ''true''),
     (''5'', ''CE'', ''COMPILE_ERROR'', ''false'', ''false''),
     (''6'', ''FPE'', ''FLOAT_POINT_EXCEPTION'', ''false'', ''true''),
     (''7'', ''MLE'', ''MEMORY_LIMIT_EXCEEDED'', ''false'', ''true''),
     (''8'', ''NZEC'', ''NON_ZERO_EXIT_CODE'', ''false'', ''true''),
     (''9'', ''RE'', ''RUNTIME_ERROR'', ''false'', ''true''),
     (''10'', ''PE'', ''PRESENTATION_ERROR'', ''false'', ''true''),
     (''11'', ''OLE'', ''OUTPUT_LIMIT_EXCEEDED'', ''false'', ''true'')]"

definition languages :: "(string \<times> string) list" where
  "languages = [(''1'', ''c''), (''2'', ''c++''), (''3'', ''java''), (''4'', ''python'')]"

definition add_static_nodes :: "unit prog" where
  "add_static_nodes =
     bnd (gets region_id) (\<lambda>reg.
     bnd (gets organization) (\<lambda>org.
     bnd (sub_element_root (Elem (lit ''region'') JNull JNull
            [leaf ''external-id'' (JStr reg), leaf ''name'' (JStr org)])) (\<lambda>_.
     bnd (for_each (\<lambda>(j_id, acr, name, solved, penalty).
            sub_element_root (Elem (lit ''judgement'') JNull JNull
              [leaf ''id'' (JStr (lit j_id)), leaf ''acronym'' (JStr (lit acr)),
               leaf ''name'' (JStr (lit name)), leaf ''solved'' (JStr (lit solved)),
               leaf ''penalty'' (JStr (lit penalty))])) judgements_conf) (\<lambda>_.
     for_each (\<lambda>(l_id, l_name).
            sub_element_root (Elem (lit ''language'') JNull JNull
              [leaf ''id'' (JStr (lit l_id)), leaf ''name'' (JStr (lit l_name))])) languages))))"

subsection \<open>Problems\<close>

text \<open>Lines 315 to 318: the \<^verbatim>\<open>problem\<close> element.\<close>

definition problem_element :: "pystr \<Rightarrow> pystr \<Rightarrow> xml" where
  "problem_element xid l =
     Elem (lit ''problem'') JNull JNull
       [leaf ''id'' (JStr xid), leaf ''letter'' (JStr l),
        leaf ''name'' (JStr (lit ''Problem '' @ l))]"

text \<open>The body of the loop of \<^verbatim>\<open>_process_problems\<close> for the pair \<^verbatim>\<open>(idx, p)\<close>.\<close>

definition add_problem :: "nat \<times> json \<Rightarrow> unit prog" where
  "add_problem = (\<lambda>(idx, p).
     bnd (lift (dict_get p (lit ''id'') JNull)) (\<lambda>p_id.
     let xml_id = str_int (int idx + 1) in
     bnd (lift (py_chr (65 + int idx))) (\<lambda>letter.
     bnd (lift (py_key p_id)) (\<lambda>k.
     bnd (modify (\<lambda>s. s\<lparr>label_map :=
            AList.update k \<lparr>xml_id = xml_id, letter = letter\<rparr> (label_map s)\<rparr>)) (\<lambda>_.
     sub_element_root (problem_element xml_id letter))))))"

definition process_problems :: "env \<Rightarrow> api \<Rightarrow> unit prog" where
  "process_problems E A =
     bnd (gets selected_problem_set_id) (\<lambda>sid.
     bnd (safe_request A (api_base @ py_str E sid @ lit ''/preview/problems'')
            (Some [(lit ''problem_type'', JStr (lit ''PROGRAMMING'')),
                   (lit ''page'', JInt 0), (lit ''limit'', JInt 500)])) (\<lambda>data.
     bnd (lift (dict_get data (lit ''problemSetProblems'') (JArr []))) (\<lambda>problems.
     bnd (lift (py_iter problems)) (\<lambda>ps.
     for_each add_problem (enumerate 0 ps)))))"

subsection \<open>Teams\<close>

text \<open>\<^verbatim>\<open>d.update(v)\<close>: the dict afterwards and the exception raised, if any.\<close>

definition dict_update :: "env \<Rightarrow> (json \<times> json) list \<Rightarrow> json \<Rightarrow> (json \<times> json) list \<times> error option" where
  "dict_update E d v =
     (case v of
        JObj kvs \<Rightarrow> (fold (\<lambda>(k, x). AList.update (JStr k) x) kvs d, None)
      | _ \<Rightarrow> (fold (\<lambda>(k, x). AList.update k x) (fst (dict_update_other E v)) d,
              snd (dict_update_other E v)))"

text \<open>\<^verbatim>\<open>self._exam_by_user_id.update(v)\<close> and \<^verbatim>\<open>self._student_user_by_id.update(v)\<close>.\<close>

definition update_exam_by_user_id :: "env \<Rightarrow> json \<Rightarrow> unit prog" where
  "update_exam_by_user_id E v = (\<lambda>s.
     ((case snd (dict_update E (exam_by_user_id s) v) of None \<Rightarrow> Inr () | Some e \<Rightarrow> Inl e),
      s\<lparr>exam_by_user_id := fst (dict_update E (exam_by_user_id s) v)\<rparr>))"

definition update_student_user_by_id :: "env \<Rightarrow> json \<Rightarrow> unit prog" where
  "update_student_user_by_id E v = (\<lambda>s.
     ((case snd (dict_update E (student_user_by_id s) v) of None \<Rightarrow> Inr () | Some e \<Rightarrow> Inl e),
      s\<lparr>student_user_by_id := fst (dict_update E (student_user_by_id s) v)\<rparr>))"

text \<open>\<^verbatim>\<open>student_user.get("name", "").strip()\<close>.\<close>

definition student_name :: "env \<Rightarrow> json \<Rightarrow> pystr result" where
  "student_name E student_user =
     rbind (dict_get student_user (lit ''name'') (JStr [])) (\<lambda>n.
       case n of JStr t \<Rightarrow> Inr (str_strip E t) | _ \<Rightarrow> Inl AttributeError)"

definition get_team_name :: "env \<Rightarrow> json \<Rightarrow> json \<Rightarrow> pystr prog" where
  "get_team_name E user_id student_user_id =
     bnd (lift (py_key user_id)) (\<lambda>uk.
     bnd (gets exam_by_user_id) (\<lambda>by_user.
     bnd (case map_of by_user uk of
            None \<Rightarrow> ret []
          | Some exam \<Rightarrow>
              lift (rbind (dict_get exam (lit ''studentUser'') (JObj [])) (student_name E))) (\<lambda>name.
     if name \<noteq> [] then ret name
     else
       bnd (lift (py_key student_user_id)) (\<lambda>sk.
       bnd (gets student_user_by_id) (\<lambda>by_id.
       bnd (case map_of by_id sk of
              None \<Rightarrow> ret []
            | Some student_user \<Rightarrow> lift (student_name E student_user)) (\<lambda>name.
       if name \<noteq> [] then ret name
       else ret (lit ''Team_'' @ py_str E user_id)))))))"

definition add_team_node :: "env \<Rightarrow> json \<Rightarrow> unit prog" where
  "add_team_node E member_data =
     bnd (lift (dict_get member_data (lit ''userId'') JNull)) (\<lambda>user_id.
     bnd (lift (dict_get member_data (lit ''studentUserId'') JNull)) (\<lambda>student_user_id.
     if \<not> truthy user_id then ret ()
     else
       bnd (get_team_name E user_id student_user_id) (\<lambda>name.
       bnd (gets region_id) (\<lambda>reg.
       bnd (gets organization) (\<lambda>org.
       sub_element_root (Elem (lit ''team'') JNull JNull
         [leaf ''id'' (JStr (py_str E user_id)), leaf ''external-id'' (JStr reg),
          leaf ''region'' (JStr org), leaf ''name'' (JStr name),
          leaf ''university'' (JStr org)]))))))"

text \<open>
  One round of the \<^verbatim>\<open>while True\<close> of \<^verbatim>\<open>_process_teams\<close> for the page number \<open>page\<close>; the
  result tells whether the loop goes on to the next page.
\<close>

definition teams_page :: "env \<Rightarrow> api \<Rightarrow> pystr \<Rightarrow> int \<Rightarrow> bool prog" where
  "teams_page E A base_url page =
     bnd (safe_request A base_url
            (Some [(lit ''exam_status'', JStr (lit ''UNKNOWN'')), (lit ''page'', JInt page),
                   (lit ''limit'', JInt 20), (lit ''order_by'', JStr (lit ''startAt'')),
                   (lit ''asc'', JStr (lit ''false''))])) (\<lambda>data.
     bnd (if page = 0
          then bnd (lift (dict_get data (lit ''total'') (JInt 0))) (\<lambda>total.
               ret (py_eq total (JInt 0)))
          else ret False) (\<lambda>no_teams.
     if no_teams then ret False
     else
       bnd (lift (dict_get data (lit ''examByUserId'') (JObj []))) (\<lambda>by_user.
       bnd (update_exam_by_user_id E by_user) (\<lambda>_.
       bnd (lift (dict_get data (lit ''studentUserById'') (JObj []))) (\<lambda>by_id.
       bnd (update_student_user_by_id E by_id) (\<lambda>_.
       bnd (lift (dict_get data (lit ''userGroupMembers'') (JArr []))) (\<lambda>members.
       if \<not> truthy members then ret False
       else
         bnd (lift (py_iter members)) (\<lambda>ms.
         bnd (for_each (add_team_node E) ms) (\<lambda>_.
         bnd (lift (py_len members)) (\<lambda>n.
         ret (\<not> n < 20)))))))))))"

text \<open>
  The loop itself. The service decides how many full pages it sends, so the loop need not
  end: \<open>None\<close> is the run that never returns.
\<close>

partial_function (option) teams_loop ::
    "env \<Rightarrow> api \<Rightarrow> pystr \<Rightarrow> int \<Rightarrow> state \<Rightarrow> (unit result \<times> state) option" where
  "teams_loop E A base_url page s =
     (case teams_page E A base_url page s of
        (Inl e, s') \<Rightarrow> Some (Inl e, s')
      | (Inr next_page, s') \<Rightarrow>
          if next_page then teams_loop E A base_url (page + 1) s' else Some (Inr (), s'))"

declare teams_loop.simps [code]

definition process_teams :: "env \<Rightarrow> api \<Rightarrow> state \<Rightarrow> (unit result \<times> state) option" where
  "process_teams E A s =
     teams_loop E A
       (api_base @ py_str E (selected_problem_set_id s) @ lit ''/user-group-members'') 0
       (s\<lparr>exam_by_user_id := [], student_user_by_id := []\<rparr>)"

subsection \<open>Submissions\<close>

text \<open>
  \<^verbatim>\<open>_add_submission_node\<close>. A submission whose problem is not in \<^verbatim>\<open>label_map\<close> returns at
  once; for the others every step that can raise comes before the \<^verbatim>\<open>run\<close> element is made.
\<close>

definition rel_time_sec :: "datetime \<Rightarrow> datetime \<Rightarrow> int result" where
  "rel_time_sec submit_at start =
     rbind (dt_sub submit_at start) (\<lambda>time_diff.
       Inr (if total_seconds_int time_diff < 0 then 0 else total_seconds_int time_diff))"

text \<open>Lines 509 to 520: the \<^verbatim>\<open>run\<close> element and its eleven children.\<close>

definition run_element ::
    "env \<Rightarrow> int \<Rightarrow> pystr \<Rightarrow> label \<Rightarrow> json \<Rightarrow> int \<Rightarrow> datetime \<Rightarrow> string \<Rightarrow> string \<Rightarrow> pystr \<Rightarrow> xml" where
  "run_element E counter lang_id problem_conf team rel submit_at solved penalty acronym =
     Elem (lit ''run'') JNull JNull
       [leaf ''id'' (JStr (str_int counter)),
        leaf ''judged'' (JStr (lit ''True'')),
        leaf ''language'' (JStr lang_id),
        leaf ''problem'' (JStr (xml_id problem_conf)),
        leaf ''status'' (JStr (lit ''done'')),
        leaf ''team'' team,
        leaf ''time'' (JStr (str_int rel)),
        leaf ''timestamp'' (JStr (format_f E 2
           (wall_us submit_at - (case utcoffset submit_at of Some off \<Rightarrow> off | None \<Rightarrow> 0)))),
        leaf ''solved'' (JStr (lit solved)),
        leaf ''penalty'' (JStr (lit penalty)),
        leaf ''result'' (JStr acronym)]"

definition add_submission_node :: "env \<Rightarrow> json \<Rightarrow> int \<Rightarrow> unit prog" where
  "add_submission_node E sub counter =
     bnd (lift (dict_get sub (lit ''problemSetProblemId'') JNull)) (\<lambda>problem_id.
     bnd (lift (py_key problem_id)) (\<lambda>k.
     bnd (gets label_map) (\<lambda>labels.
     case map_of labels k of
       None \<Rightarrow> ret ()
     | Some problem_conf \<Rightarrow>
         bnd (lift (dict_get sub (lit ''status'') (JStr (lit ''UNKNOWN'')))) (\<lambda>pta_status.
         let solved = (if pta_status = JStr (lit ''ACCEPTED'') then ''true'' else ''false'');
             penalty = (if pta_status = JStr (lit ''COMPILE_ERROR'') then ''false'' else ''true'')
         in
         bnd (lift (result_acronym pta_status)) (\<lambda>acronym.
         bnd (lift (dict_get sub (lit ''compiler'') (JStr (lit ''UNKNOWN'')))) (\<lambda>c.
         bnd (lift (case c of JStr t \<Rightarrow> Inr (str_upper E t) | _ \<Rightarrow> Inl AttributeError)) (\<lambda>compiler.
         bnd (lift (table_get compiler_map (JStr compiler) (lit ''1''))) (\<lambda>lang_id.
         bnd (lift (dict_index sub (lit ''submitAt''))) (\<lambda>at.
         bnd (lift (case at of
                      JStr t \<Rightarrow> fromisoformat E (replace_char 90 (lit ''+00:00'') t)
                    | _ \<Rightarrow> Inl AttributeError)) (\<lambda>submit_at.
         bnd (gets contest_start_dt) (\<lambda>start.
         bnd (lift (case start of
                      None \<Rightarrow> Inl AttributeError
                    | Some st \<Rightarrow> rel_time_sec submit_at st)) (\<lambda>rel.
         bnd (lift (dict_get sub (lit ''userId'') JNull)) (\<lambda>team.
         sub_element_root
           (run_element E counter lang_id problem_conf team rel submit_at solved penalty
              acronym))))))))))))))"

text \<open>
  The fields of the \<^verbatim>\<open>run\<close> element that \<^verbatim>\<open>_add_submission_node\<close> builds, all but the id:
  language, problem, team, relative time, time of submission, solved, penalty and
  acronym. \<open>submission_fields\<close> is lines 483 to 506 and 515 on their own: they read the
  lookup and the contest start and nothing else of the generator, and give \<open>None\<close> for a
  submission that is dropped.
\<close>

type_synonym run_fields = "pystr \<times> label \<times> json \<times> int \<times> datetime \<times> string \<times> string \<times> pystr"

definition submission_fields ::
    "env \<Rightarrow> (json \<times> label) list \<Rightarrow> datetime option \<Rightarrow> json \<Rightarrow> run_fields option result" where
  "submission_fields E labels start sub =
     rbind (dict_get sub (lit ''problemSetProblemId'') JNull) (\<lambda>problem_id.
     rbind (py_key problem_id) (\<lambda>k.
     case map_of labels k of
       None \<Rightarrow> Inr None
     | Some problem_conf \<Rightarrow>
         rbind (dict_get sub (lit ''status'') (JStr (lit ''UNKNOWN''))) (\<lambda>pta_status.
         rbind (result_acronym pta_status) (\<lambda>acronym.
         rbind (dict_get sub (lit ''compiler'') (JStr (lit ''UNKNOWN''))) (\<lambda>c.
         rbind (case c of JStr t \<Rightarrow> Inr (str_upper E t) | _ \<Rightarrow> Inl AttributeError) (\<lambda>compiler.
         rbind (table_get compiler_map (JStr compiler) (lit ''1'')) (\<lambda>lang_id.
         rbind (dict_index sub (lit ''submitAt'')) (\<lambda>at.
         rbind (case at of
                  JStr t \<Rightarrow> fromisoformat E (replace_char 90 (lit ''+00:00'') t)
                | _ \<Rightarrow> Inl AttributeError) (\<lambda>submit_at.
         rbind (case start of
                  None \<Rightarrow> Inl AttributeError
                | Some st \<Rightarrow> rel_time_sec submit_at st) (\<lambda>rel.
         rbind (dict_get sub (lit ''userId'') JNull) (\<lambda>team.
         Inr (Some (lang_id, problem_conf, team, rel, submit_at,
                    if pta_status = JStr (lit ''ACCEPTED'') then ''true'' else ''false'',
                    if pta_status = JStr (lit ''COMPILE_ERROR'') then ''false'' else ''true'',
                    acronym)))))))))))))"

text \<open>The \<^verbatim>\<open>for sub in submissions\<close> of one page; it returns the counter after the page.\<close>

primrec page_loop :: "env \<Rightarrow> json list \<Rightarrow> int \<Rightarrow> int prog" where
  "page_loop E [] counter = ret counter"
| "page_loop E (sub # subs) counter =
     bnd (add_submission_node E sub counter) (\<lambda>_. page_loop E subs (counter + 1))"

text \<open>
  One round of the \<^verbatim>\<open>while True\<close> of \<^verbatim>\<open>_process_submissions\<close>, entered with the cursor
  \<open>before\<close> and the counter: \<open>None\<close> is a \<^verbatim>\<open>break\<close>, \<open>Some\<close> the cursor and the counter of the
  next round. The pause after a hundred submissions is left out.
\<close>

definition submissions_page ::
    "env \<Rightarrow> api \<Rightarrow> pystr \<Rightarrow> json \<Rightarrow> int \<Rightarrow> (json \<times> int) option prog" where
  "submissions_page E A base_url before counter =
     bnd (safe_request A base_url
            (Some ((lit ''limit'', JInt 100) #
                   (if truthy before then [(lit ''before'', before)] else [])))) (\<lambda>data.
     bnd (lift (dict_get data (lit ''submissions'') (JArr []))) (\<lambda>submissions.
     if \<not> truthy submissions then ret None
     else
       bnd (lift (py_iter submissions)) (\<lambda>subs.
       bnd (page_loop E subs counter) (\<lambda>counter'.
       bnd (lift (dict_get data (lit ''hasBefore'') (JBool False))) (\<lambda>has_more.
       if truthy has_more then
         bnd (lift (py_last submissions)) (\<lambda>last_submission.
         bnd (lift (dict_get last_submission (lit ''id'') JNull)) (\<lambda>next_cursor.
         if py_eq next_cursor before then ret None
         else ret (Some (next_cursor, counter'))))
       else ret None)))))"

partial_function (option) submissions_loop ::
    "env \<Rightarrow> api \<Rightarrow> pystr \<Rightarrow> json \<Rightarrow> int \<Rightarrow> state \<Rightarrow> (unit result \<times> state) option" where
  "submissions_loop E A base_url before counter s =
     (case submissions_page E A base_url before counter s of
        (Inl e, s') \<Rightarrow> Some (Inl e, s')
      | (Inr None, s') \<Rightarrow> Some (Inr (), s')
      | (Inr (Some (before', counter')), s') \<Rightarrow>
          submissions_loop E A base_url before' counter' s')"

declare submissions_loop.simps [code]

definition process_submissions :: "env \<Rightarrow> api \<Rightarrow> state \<Rightarrow> (unit result \<times> state) option" where
  "process_submissions E A s =
     submissions_loop E A
       (api_base @ py_str E (selected_problem_set_id s) @ lit ''/submissions'') JNull 1 s"

subsection \<open>The closing element\<close>

text \<open>\<^verbatim>\<open>self.contest_root.find("info/length")\<close>: the first \<^verbatim>\<open>length\<close> child of an \<^verbatim>\<open>info\<close> child.\<close>

definition find_info_length :: "xml \<Rightarrow> xml option" where
  "find_info_length root =
     (case concat (map (\<lambda>i. filter (\<lambda>c. etag c = lit ''length'') (kids i))
                   (filter (\<lambda>c. etag c = lit ''info'') (kids root))) of
        [] \<Rightarrow> None
      | x # xs \<Rightarrow> Some x)"

text \<open>
  \<^verbatim>\<open>_add_finalized_node\<close>; \<open>now\<close> is the text of \<^verbatim>\<open>str(datetime.now().timestamp())\<close>, the
  one reading of the clock. Without an \<^verbatim>\<open>info/length\<close> element the fourth assignment
  raises and leaves the element with three children.
\<close>

definition medals :: "xml list" where
  "medals = [leaf ''last_gold'' (JStr (lit ''1'')), leaf ''last_silver'' (JStr (lit ''1'')),
             leaf ''last_bronze'' (JStr (lit ''1''))]"

definition finalized_element :: "pystr \<Rightarrow> json \<Rightarrow> xml" where
  "finalized_element len_text stamp =
     Elem (lit ''finalized'') JNull JNull
       (medals @ [leaf ''time'' (JStr len_text), leaf ''timestamp'' stamp])"

definition add_finalized_node :: "env \<Rightarrow> pystr \<Rightarrow> unit prog" where
  "add_finalized_node E now =
     bnd (gets contest_root) (\<lambda>root.
     case root of
       None \<Rightarrow> raise TypeError
     | Some r \<Rightarrow>
         (case find_info_length r of
            None \<Rightarrow>
              bnd (sub_element_root (Elem (lit ''finalized'') JNull JNull medals)) (\<lambda>_.
              raise AttributeError)
          | Some len \<Rightarrow>
              sub_element_root (finalized_element (py_str E (etext len)) (JStr now))))"

subsection \<open>Writing the file\<close>

text \<open>\<^verbatim>\<open>not t or not t.strip()\<close> for a text or a tail.\<close>

definition blank :: "env \<Rightarrow> json \<Rightarrow> bool result" where
  "blank E t =
     (if \<not> truthy t then Inr True
      else case t of JStr x \<Rightarrow> Inr (str_strip E x = []) | _ \<Rightarrow> Inl AttributeError)"

text \<open>
  \<^verbatim>\<open>_indent\<close>, which changes the tree in place: the result is the tree as it is when the
  call ends, and the exception that ended it, if any.
\<close>

fun indent :: "env \<Rightarrow> nat \<Rightarrow> xml \<Rightarrow> xml \<times> error option"
  and indent_children :: "env \<Rightarrow> nat \<Rightarrow> xml list \<Rightarrow> xml list \<times> error option" where
  "indent E level (Elem t x ta cs) =
     (let i = 10 # concat (replicate level [32, 32]) in
      if cs \<noteq> [] then
        (case blank E x of
           Inl e \<Rightarrow> (Elem t x ta cs, Some e)
         | Inr b1 \<Rightarrow>
             let x1 = (if b1 then JStr (i @ [32, 32]) else x) in
             (case blank E ta of
                Inl e \<Rightarrow> (Elem t x1 ta cs, Some e)
              | Inr b2 \<Rightarrow>
                  let ta1 = (if b2 then JStr i else ta) in
                  (case indent_children E (level + 1) cs of
                     (cs', Some e) \<Rightarrow> (Elem t x1 ta1 cs', Some e)
                   | (cs', None) \<Rightarrow>
                       (case blank E ta1 of
                          Inl e \<Rightarrow> (Elem t x1 ta1 cs', Some e)
                        | Inr b3 \<Rightarrow> (Elem t x1 (if b3 then JStr i else ta1) cs', None)))))
      else if level \<noteq> 0 then
        (case blank E ta of
           Inl e \<Rightarrow> (Elem t x ta cs, Some e)
         | Inr b \<Rightarrow> (Elem t x (if b then JStr i else ta) cs, None))
      else (Elem t x ta cs, None))"
| "indent_children E level [] = ([], None)"
| "indent_children E level (c # cs) =
     (case indent E level c of
        (c', Some e) \<Rightarrow> (c' # cs, Some e)
      | (c', None) \<Rightarrow>
          (case indent_children E level cs of (cs', err) \<Rightarrow> (c' # cs', err)))"

text \<open>\<^verbatim>\<open>_save_xml\<close>: the tree is indented in place and written to the path.\<close>

definition save_xml :: "env \<Rightarrow> pystr \<Rightarrow> unit prog" where
  "save_xml E path = (\<lambda>s.
     case contest_root s of
       None \<Rightarrow> (Inl TypeError, s)
     | Some r \<Rightarrow>
         (case indent E 0 r of
            (r', Some e) \<Rightarrow> (Inl e, s\<lparr>contest_root := Some r'\<rparr>)
          | (r', None) \<Rightarrow>
              (case et_write E r' path of
                 (content, err) \<Rightarrow>
                   ((case err of None \<Rightarrow> Inr () | Some e \<Rightarrow> Inl e),
                    s\<lparr>contest_root := Some r',
                      written := (case content of
                                    None \<Rightarrow> written s
                                  | Some b \<Rightarrow> written s @ [(path, b)])\<rparr>))))"

section \<open>The generation entry point\<close>

text \<open>
  A method that runs one of the two paging loops may never return: its result is an
  option, \<open>None\<close> for the run that does not end.
\<close>

type_synonym 'a pprog = "state \<Rightarrow> ('a result \<times> state) option"

definition total :: "'a prog \<Rightarrow> 'a pprog" where
  "total m = (\<lambda>s. Some (m s))"

definition bndp :: "'a pprog \<Rightarrow> ('a \<Rightarrow> 'b pprog) \<Rightarrow> 'b pprog" where
  "bndp m f = (\<lambda>s.
     case m s of
       None \<Rightarrow> None
     | Some (Inl e, s') \<Rightarrow> Some (Inl e, s')
     | Some (Inr x, s') \<Rightarrow> f x s')"

text \<open>
  \<^verbatim>\<open>generate_contest_xml(output_path)\<close>, with the text \<open>now\<close> that the clock gives the
  closing element.
\<close>

definition generate_contest_xml :: "env \<Rightarrow> api \<Rightarrow> pystr \<Rightarrow> pystr \<Rightarrow> pystr pprog" where
  "generate_contest_xml E A now output_path = (\<lambda>s.
     if \<not> truthy (selected_problem_set_id s) then Some (Inl (ValueError msg_select_first), s)
     else
       bndp (total init_xml_structure) (\<lambda>_.
       bndp (total (process_exam_info E A)) (\<lambda>_.
       bndp (total add_static_nodes) (\<lambda>_.
       bndp (total (process_problems E A)) (\<lambda>_.
       bndp (process_teams E A) (\<lambda>_.
       bndp (process_submissions E A) (\<lambda>_.
       bndp (total (add_finalized_node E now)) (\<lambda>_.
       bndp (total (save_xml E output_path)) (\<lambda>_.
       total (ret output_path))))))))) s)"

section \<open>Reading responses and documents\<close>

text \<open>The test \<^verbatim>\<open>"application/json" in content_type\<close> of \<^verbatim>\<open>_safe_request\<close>, on a response.\<close>

definition is_json_type :: "response \<Rightarrow> bool" where
  "is_json_type resp =
     contains (case content_type resp of Some c \<Rightarrow> c | None \<Rightarrow> []) (lit ''application/json'')"

text \<open>The text of the first child with a given tag, as \<^verbatim>\<open>Element.find(tag).text\<close> reads it.\<close>

definition child_text :: "string \<Rightarrow> xml \<Rightarrow> json option" where
  "child_text t e = map_option etext (find (\<lambda>c. etag c = lit t) (kids e))"


text \<open>
  The \<^verbatim>\<open>run\<close> element for the submission at position \<open>i\<close> of a page that is entered with
  the counter \<open>c\<close>, and the state after elements were appended to the root \<open>r\<close>.
\<close>

definition run_at :: "env \<Rightarrow> int \<Rightarrow> nat \<times> run_fields \<Rightarrow> xml" where
  "run_at E c = (\<lambda>(i, lang_id, problem_conf, team, rel, submit_at, solved, penalty, acronym).
     run_element E (c + int i) lang_id problem_conf team rel submit_at solved penalty acronym)"

definition with_runs :: "xml \<Rightarrow> xml list \<Rightarrow> state \<Rightarrow> state" where
  "with_runs r runs s = s\<lparr>contest_root := Some (Elem (etag r) (etext r) (etail r) (kids r @ runs))\<rparr>"

text \<open>
  A method that only adds to the log of requests: whatever it returns, the requests sent
  before it are a prefix of the requests sent after it. \<open>grows\<close> is for the methods that
  always return, \<open>pgrows\<close> for those that may not.
\<close>

definition grows :: "'a prog \<Rightarrow> bool" where
  "grows m = (\<forall>s r s'. m s = (r, s') \<longrightarrow> prefix (requests s) (requests s'))"

definition pgrows :: "'a pprog \<Rightarrow> bool" where
  "pgrows m = (\<forall>s r s'. m s = Some (r, s') \<longrightarrow> prefix (requests s) (requests s'))"

text \<open>
  A document with the one text that depends on the clock taken out: the text of the
  \<^verbatim>\<open>timestamp\<close> children of the \<^verbatim>\<open>finalized\<close> children of the root.
\<close>

definition blind_timestamp :: "xml \<Rightarrow> xml" where
  "blind_timestamp root =
     Elem (etag root) (etext root) (etail root)
       (map (\<lambda>c. if etag c = lit ''finalized''
                 then Elem (etag c) (etext c) (etail c)
                        (map (\<lambda>l. if etag l = lit ''timestamp''
                                  then Elem (etag l) JNull (etail l) (kids l) else l) (kids c))
                 else c)
          (kids root))"

text \<open>
  Two outcomes of the entry point that are the same up to the timestamp: neither run
  ends, or both end with the same result and leave the same state, except for the document,
  which is the same once the timestamp is blinded, and for the file written last, which
  is for each run what the writer makes of its document at the path.
\<close>

definition same_up_to_timestamp ::
    "env \<Rightarrow> pystr \<Rightarrow> (pystr result \<times> state) option \<Rightarrow> (pystr result \<times> state) option \<Rightarrow> bool" where
  "same_up_to_timestamp E path a b =
     (case (a, b) of
        (None, None) \<Rightarrow> True
      | (Some (r1, s1), Some (r2, s2)) \<Rightarrow>
          r1 = r2
          \<and> s1\<lparr>contest_root := None, written := []\<rparr> = s2\<lparr>contest_root := None, written := []\<rparr>
          \<and> map_option blind_timestamp (contest_root s1) = map_option blind_timestamp (contest_root s2)
          \<and> (written s1 = written s2 \<or>
              (case (contest_root s1, contest_root s2) of
                 (Some root1, Some root2) \<Rightarrow>
                   (case (fst (et_write E root1 path), fst (et_write E root2 path)) of
                      (Some b1, Some b2) \<Rightarrow>
                        written s1 = butlast (written s1) @ [(path, b1)] \<and>
                        written s2 = butlast (written s1) @ [(path, b2)]
                    | _ \<Rightarrow> False)
               | _ \<Rightarrow> False))
      | _ \<Rightarrow> False)"


text \<open>
  The uppercase letters, and the entry of \<^verbatim>\<open>label_map\<close> for the problem at index \<open>i\<close> of a
  listing (line 313).
\<close>

definition uppercase :: pystr where
  "uppercase = lit ''ABCDEFGHIJKLMNOPQRSTUVWXYZ''"

definition problem_label :: "nat \<Rightarrow> label" where
  "problem_label i = \<lparr>xml_id = str_int (int i + 1), letter = [65 + i]\<rparr>"

section \<open>A sample environment and a sample service\<close>

text \<open>
  Concrete library functions and a small service, for the examples that follow the
  theorems. The library functions are the Python ones on the inputs the examples use:
  \<open>sample_iso\<close> knows four timestamps, \<open>format_f\<close> is right on whole seconds, the system
  clock runs on UTC, \<open>str_upper\<close> and \<open>str_strip\<close> are the ASCII ones, and the writer
  puts tags and texts one after the other.
\<close>

definition sample_iso :: "(pystr \<times> datetime) list" where
  "sample_iso =
    [(lit ''1970-01-01T00:00:00+00:00'', \<lparr>wall_us = 0, utcoffset = Some 0\<rparr>),
     (lit ''2024-05-01T09:00:00+00:00'', \<lparr>wall_us = 1714554000000000, utcoffset = Some 0\<rparr>),
     (lit ''2024-05-01T11:00:00+00:00'', \<lparr>wall_us = 1714561200000000, utcoffset = Some 0\<rparr>),
     (lit ''2024-05-01T09:10:00+00:00'', \<lparr>wall_us = 1714554600000000, utcoffset = Some 0\<rparr>),
     (lit ''2024-05-01T08:59:30+00:00'', \<lparr>wall_us = 1714553970000000, utcoffset = Some 0\<rparr>),
     (lit ''2024-05-01T11:00:00'', \<lparr>wall_us = 1714561200000000, utcoffset = None\<rparr>)]"

fun render :: "xml \<Rightarrow> pystr" where
  "render (Elem t x ta cs) =
     lit ''<'' @ t @ lit ''>'' @ (case x of JStr v \<Rightarrow> v | _ \<Rightarrow> []) @
     concat (map render cs) @
     lit ''</'' @ t @ lit ''>'' @ (case ta of JStr v \<Rightarrow> v | _ \<Rightarrow> [])"

definition sample_env :: env where
  "sample_env =
     \<lparr>fromisoformat = (\<lambda>t. case map_of sample_iso t of
                          Some d \<Rightarrow> Inr d
                        | None \<Rightarrow> Inl (ValueError (lit ''Invalid isoformat string''))),
      local_to_utc = Inr,
      str_upper = map (\<lambda>c. if 97 \<le> c \<and> c \<le> 122 then c - 32 else c),
      str_strip = (\<lambda>t. rev (dropWhile (\<lambda>c. c = 32 \<or> c = 10) (rev (dropWhile (\<lambda>c. c = 32 \<or> c = 10) t)))),
      repr = (\<lambda>v. lit ''...''),
      format_f = (\<lambda>d us. str_int (us div 1000000) @ lit ''.'' @ replicate d 48),
      dict_update_other = (\<lambda>v. ([], Some TypeError)),
      et_write = (\<lambda>root path. (Some (render root), None))\<rparr>"

definition json_response :: "json \<Rightarrow> response" where
  "json_response j =
     \<lparr>status_code = 200, content_type = Some (lit ''application/json; charset=utf-8''),
      body_text = [], body_json = Inr j\<rparr>"

definition html_response :: "int \<Rightarrow> response" where
  "html_response status =
     \<lparr>status_code = status, content_type = Some (lit ''text/html''),
      body_text = lit ''<html>login</html>'', body_json = Inl (lit ''Expecting value'')\<rparr>"

definition sample_detail :: json where
  "sample_detail =
     JObj [(lit ''problemSet'',
            JObj [(lit ''id'', JStr (lit ''42'')), (lit ''name'', JStr (lit ''Spring Contest'')),
                  (lit ''startAt'', JStr (lit ''2024-05-01T09:00:00Z'')),
                  (lit ''endAt'', JStr (lit ''2024-05-01T11:00:00Z'')),
                  (lit ''duration'', JInt 0)])]"

definition sample_problems :: json where
  "sample_problems =
     JObj [(lit ''problemSetProblems'',
            JArr [JObj [(lit ''id'', JStr (lit ''p1''))], JObj [(lit ''id'', JStr (lit ''p2''))]])]"

definition sample_roster :: json where
  "sample_roster =
     JObj [(lit ''total'', JInt 1),
           (lit ''examByUserId'',
            JObj [(lit ''u1'', JObj [(lit ''studentUser'', JObj [(lit ''name'', JStr (lit ''Team One''))])])]),
           (lit ''studentUserById'', JObj []),
           (lit ''userGroupMembers'',
            JArr [JObj [(lit ''userId'', JStr (lit ''u1'')), (lit ''studentUserId'', JStr (lit ''s1''))]])]"

text \<open>
  Three submissions: an accepted one ten minutes into the contest, one for a problem that
  is no longer listed, and one stamped thirty seconds before the start.
\<close>

definition sub_late :: json where
  "sub_late =
     JObj [(lit ''id'', JStr (lit ''903'')), (lit ''problemSetProblemId'', JStr (lit ''p1'')),
           (lit ''status'', JStr (lit ''ACCEPTED'')), (lit ''compiler'', JStr (lit ''gxx'')),
           (lit ''submitAt'', JStr (lit ''2024-05-01T09:10:00Z'')), (lit ''userId'', JStr (lit ''u1''))]"

definition sub_gone :: json where
  "sub_gone =
     JObj [(lit ''id'', JStr (lit ''902'')), (lit ''problemSetProblemId'', JStr (lit ''p9'')),
           (lit ''status'', JStr (lit ''ACCEPTED'')), (lit ''compiler'', JStr (lit ''gxx'')),
           (lit ''submitAt'', JStr (lit ''2024-05-01T09:10:00Z'')), (lit ''userId'', JStr (lit ''u1''))]"

definition sub_early :: json where
  "sub_early =
     JObj [(lit ''id'', JStr (lit ''901'')), (lit ''problemSetProblemId'', JStr (lit ''p2'')),
           (lit ''status'', JStr (lit ''JUDGING'')), (lit ''compiler'', JStr (lit ''PYTHON3'')),
           (lit ''submitAt'', JStr (lit ''2024-05-01T08:59:30Z'')), (lit ''userId'', JStr (lit ''u1''))]"

text \<open>
  The one page of submissions. The service sends it for every cursor and always says
  that there is more, so the second request meets a cursor that has not moved.
\<close>

definition sample_page :: json where
  "sample_page =
     JObj [(lit ''submissions'', JArr [sub_late, sub_gone, sub_early]),
           (lit ''hasBefore'', JBool True)]"

definition sample_api :: api where
  "sample_api n = (\<lambda>(url, params).
     if url = api_base @ lit ''42'' then Inr (json_response sample_detail)
     else if url = api_base @ lit ''42/exams'' then Inr (json_response (JObj []))
     else if url = api_base @ lit ''42/preview/problems'' then Inr (json_response sample_problems)
     else if url = api_base @ lit ''42/user-group-members'' then Inr (json_response sample_roster)
     else if url = api_base @ lit ''42/submissions'' then Inr (json_response sample_page)
     else Inr (html_response 404))"

text \<open>A generator with the problem set 42 selected, and one with a prepared document.\<close>

definition sample_state :: state where
  "sample_state = (init (lit ''HBUE'') (lit ''1''))\<lparr>selected_problem_set_id := JStr (lit ''42'')\<rparr>"

text \<open>A service that knows nothing about the problem set, and one that wants a login.\<close>

definition bare_api :: api where
  "bare_api n = (\<lambda>req. Inr (json_response (JObj [(lit ''problemSet'', JObj [])])))"

definition login_api :: api where
  "login_api n = (\<lambda>req. Inr (html_response 401))"

definition prepared_state :: state where
  "prepared_state = sample_state\<lparr>contest_root := Some (Elem (lit ''contest'') JNull JNull [])\<rparr>"

text \<open>The generator after the problems \<^verbatim>\<open>p1\<close> and \<^verbatim>\<open>p2\<close> were listed, the contest starting at nine.\<close>

definition labelled_state :: state where
  "labelled_state =
     prepared_state\<lparr>label_map :=
         [(JStr (lit ''p1''), \<lparr>xml_id = lit ''1'', letter = lit ''A''\<rparr>),
          (JStr (lit ''p2''), \<lparr>xml_id = lit ''2'', letter = lit ''B''\<rparr>)],
       contest_start_dt := Some \<lparr>wall_us = 1714554000000000, utcoffset = Some 0\<rparr>\<rparr>"

text \<open>A service whose problem set has twenty-seven problems.\<close>

definition many_problems :: "json list" where
  "many_problems = map (\<lambda>i. JObj [(lit ''id'', JInt (int i))]) [0..<27]"

definition many_api :: api where
  "many_api n = (\<lambda>req. Inr (json_response (JObj [(lit ''problemSetProblems'', JArr many_problems)])))"



section \<open>Basic facts\<close>

lemma lit_eq_iff [simp]: "lit a = lit b \<longleftrightarrow> a = b"
  by (simp add: lit_def inj_map_eq_map inj_of_char)

lemma bnd_ret [simp]: "bnd (ret x) f = f x"
  by (simp add: bnd_def ret_def)

lemma bnd_raise [simp]: "bnd (raise e) f = raise e"
  by (simp add: bnd_def raise_def)

lemma bnd_lift_Inr [simp]: "bnd (lift (Inr x)) f = f x"
  by (simp add: bnd_def lift_def)

lemma bnd_lift_Inl [simp]: "bnd (lift (Inl e)) f = raise e"
  by (simp add: bnd_def lift_def raise_def)

lemma bnd_gets [simp]: "bnd (gets g) f s = f (g s) s"
  by (simp add: bnd_def gets_def)

lemma bnd_modify [simp]: "bnd (modify g) f s = f () (g s)"
  by (simp add: bnd_def modify_def)

lemma bnd_safe_request_ok:
  assumes "A (length (requests s)) (url, params) = Inr resp"
    and "status_code resp = 200" and "is_json_type resp" and "body_json resp = Inr j"
  shows "bnd (safe_request A url params) f s = f j (s\<lparr>requests := requests s @ [(url, params)]\<rparr>)"
  using assms by (simp add: bnd_def safe_request_def is_json_type_def Let_def)

section \<open>Whole seconds of a time difference\<close>

text \<open>
  The double that \<^verbatim>\<open>total_seconds\<close> returns is never on the other side of zero, and below
  \<open>2\<^sup>3\<^sup>3\<close> seconds (some 272 years) its integer part is the exact number of whole seconds.
  Beyond that the rounding of the quotient can reach the next second.
\<close>

lemma bit_length_million: "bit_length 1000000 = 20"
  by (simp add: bit_length.simps)

lemma bit_length_le: "n < 2 ^ l \<Longrightarrow> bit_length n \<le> l"
proof (induction l arbitrary: n)
  case 0
  then show ?case by (simp add: bit_length.simps)
next
  case (Suc l)
  then have "n div 2 < 2 ^ l" by simp
  from Suc.IH [OF this] show ?case
    by (simp add: bit_length.simps [of n])
qed

lemma round_half_even_bounds:
  assumes "0 < b"
  shows "a div b \<le> round_half_even a b" "round_half_even a b \<le> a div b + 1"
  by (simp_all add: round_half_even_def Let_def)

lemma round_half_even_nonneg: "0 \<le> a \<Longrightarrow> 0 < b \<Longrightarrow> 0 \<le> round_half_even a b"
  using round_half_even_bounds(1) [of b a] pos_imp_zdiv_nonneg_iff [of b a] by simp

lemma float_trunc_true_div_nonneg:
  assumes "0 < b"
  shows "0 \<le> float_trunc (true_div a b)"
proof -
  obtain m s where ms: "true_div a b = (m, s)"
    by (cases "true_div a b")
  then have "0 \<le> m"
    using assms unfolding true_div_def Let_def
    by (auto intro!: round_half_even_nonneg)
  then show ?thesis
    by (simp add: float_trunc_def ms pos_imp_zdiv_nonneg_iff)
qed

lemma total_seconds_int_sign:
  "0 \<le> us \<Longrightarrow> 0 \<le> total_seconds_int us"
  "us < 0 \<Longrightarrow> total_seconds_int us \<le> 0"
  using float_trunc_true_div_nonneg [of 1000000]
  by (simp_all add: total_seconds_int_def)

lemma float_trunc_true_div_exact:
  assumes small: "a < 1000000 * 2 ^ 33"
  shows "float_trunc (true_div a 1000000) = int (a div 1000000)"
proof -
  define k where "k = int (bit_length a) - int (bit_length 1000000)"
  define e where "e = (if 1000000 * 2 ^ nat k \<le> a * 2 ^ nat (- k) then k else k - 1)"
  define s where "s = 52 - e"
  define X :: int where "X = 2 ^ nat s"
  define q r where "q = int (a div 1000000)" and "r = int (a mod 1000000)"
  have e: "e \<le> 32"
  proof (rule ccontr)
    assume "\<not> e \<le> 32"
    then have big: "33 \<le> e" by simp
    show False
    proof (cases "1000000 * 2 ^ nat k \<le> a * 2 ^ nat (- k)")
      case True
      with big have k: "33 \<le> k" and le: "1000000 * 2 ^ nat k \<le> a"
        by (simp_all add: e_def)
      from k have "(2::nat) ^ 33 \<le> 2 ^ nat k"
        by (intro power_increasing) simp_all
      with le small show False
        by simp
    next
      case False
      with big have k: "34 \<le> k"
        by (simp add: e_def)
      have "a < 2 ^ 53"
        using small by simp
      from bit_length_le [OF this] k show False
        by (simp add: k_def bit_length_million)
    qed
  qed
  then have s: "20 \<le> s"
    by (simp add: s_def)
  have "(2::int) ^ 20 \<le> 2 ^ nat s"
    using s by (intro power_increasing) simp_all
  then have X: "1048576 \<le> X"
    by (simp add: X_def)
  have r: "0 \<le> r" "r < 1000000"
    by (simp_all add: r_def zmod_int)
  have a: "int a = q * 1000000 + r"
    by (simp add: q_def r_def zdiv_int zmod_int)
  have "r * X \<le> 999999 * X"
    using r X by (intro mult_right_mono) simp_all
  also have "\<dots> < 1000000 * (X - 1)"
    using X by simp
  finally have "r * X < 1000000 * (X - 1)" .
  moreover define Y where "Y = r * X"
  ultimately have "Y < 1000000 * (X - 1)"
    by simp
  moreover have "1000000 * (Y div 1000000) = Y - Y mod 1000000"
    by (simp add: minus_mod_eq_mult_div)
  moreover have "0 \<le> Y mod 1000000"
    by simp
  ultimately have "1000000 * (Y div 1000000) < 1000000 * (X - 1)"
    by (simp only:)
  then have "Y div 1000000 \<le> X - 2"
    by simp
  then have t: "r * X div 1000000 \<le> X - 2"
    by (simp add: Y_def)
  have t0: "0 \<le> r * X div 1000000"
    using r X by (simp add: pos_imp_zdiv_nonneg_iff)
  have "int a * X = (q * X) * 1000000 + r * X"
    by (simp add: a algebra_simps)
  then have N: "int a * X div 1000000 = q * X + r * X div 1000000"
    by simp
  define m where "m = round_half_even (int a * X) 1000000"
  from round_half_even_bounds [of 1000000 "int a * X"] N t t0
  have m: "q * X \<le> m" "m < q * X + X"
    by (simp_all add: m_def)
  have "m div X = q"
  proof (rule int_div_pos_eq)
    show "m = X * q + (m - q * X)" by simp
    show "0 \<le> m - q * X" using m by simp
    show "m - q * X < X" using m by simp
  qed
  moreover have td: "true_div a 1000000 =
      (round_half_even (int a * 2 ^ nat s) (int 1000000 * 2 ^ nat (- s)), s)"
    by (simp only: true_div_def Let_def s_def e_def k_def)
  moreover have "0 \<le> s" "nat (- s) = 0"
    using s by simp_all
  moreover have "round_half_even (int a * 2 ^ nat s) 1000000 = m" "2 ^ nat s = X"
    by (simp_all add: m_def X_def)
  ultimately show ?thesis
    by (simp add: float_trunc_def q_def)
qed

lemma total_seconds_int_exact:
  assumes "\<bar>us\<bar> < 1000000 * 2 ^ 33"
  shows "total_seconds_int us = (if 0 \<le> us then us div 1000000 else - ((- us) div 1000000))"
proof -
  from assms have "nat \<bar>us\<bar> < 1000000 * 2 ^ 33"
    by simp
  from float_trunc_true_div_exact [OF this] show ?thesis
    by (auto simp: total_seconds_int_def zdiv_int)
qed

lemma total_seconds_int_far:
  "total_seconds_int 19880899200999999 = 19880899201"
  by (simp add: total_seconds_int_def true_div_def float_trunc_def round_half_even_def
      bit_length.simps Let_def)

section \<open>Requests and their errors\<close>



section \<open>The entry point without a selection\<close>

text \<open>
  Claim C8. When no problem set is selected (the attribute is \<^verbatim>\<open>None\<close> or otherwise false),
  the generation entry point raises \<^verbatim>\<open>ValueError\<close> at once: the state it leaves is the state
  it found, so no request has been sent and no file written.
\<close>

theorem generate_without_selection:
  assumes "\<not> truthy (selected_problem_set_id s)"
  shows "generate_contest_xml E A now output_path s = Some (Inl (ValueError msg_select_first), s)"
  using assms by (simp add: generate_contest_xml_def)

theorem generate_without_selection_witness:
  "\<not> truthy (selected_problem_set_id (init (lit ''HBUE'') (lit ''1'')))
   \<and> generate_contest_xml sample_env sample_api (lit ''0.0'') (lit ''contest.xml'')
         (init (lit ''HBUE'') (lit ''1''))
       = Some (Inl (ValueError msg_select_first), init (lit ''HBUE'') (lit ''1''))"
proof -
  have h: "\<not> truthy (selected_problem_set_id (init (lit ''HBUE'') (lit ''1'')))"
    by (simp add: init_def)
  from h generate_without_selection [OF h] show ?thesis
    by simp
qed

section \<open>The status mapping\<close>



section \<open>The contest duration\<close>

text \<open>What \<^verbatim>\<open>_process_exam_info\<close> does with a well-formed answer of the service.\<close>

lemma process_exam_info_result:
  assumes root: "contest_root s = Some r"
    and resp: "A (length (requests s)) (api_base @ py_str E (selected_problem_set_id s), None) = Inr resp"
    and ok: "status_code resp = 200" "is_json_type resp" "body_json resp = Inr data"
    and ps: "dict_get data (lit ''problemSet'') (JObj []) = Inr (JObj ps)"
    and st: "parse_time E (case map_of ps (lit ''startAt'') of Some v \<Rightarrow> v
                           | None \<Rightarrow> JStr (lit ''1970-01-01T00:00:00Z'')) = Inr start_dt"
    and en: "parse_time E (case map_of ps (lit ''endAt'') of Some v \<Rightarrow> v
                           | None \<Rightarrow> JStr (lit ''1970-01-01T00:00:00Z'')) = Inr end_dt"
    and utc: "astimezone_utc E start_dt = Inr start"
    and dur: "duration_sec (case map_of ps (lit ''duration'') of Some v \<Rightarrow> v | None \<Rightarrow> JInt 0)
                start_dt end_dt = Inr d"
  shows "process_exam_info E A s =
           (Inr (),
            s\<lparr>requests := requests s @ [(api_base @ py_str E (selected_problem_set_id s), None)],
              exam_info := data,
              contest_root := Some (sub_element r (Elem (lit ''info'') JNull JNull
                (info_children E
                   (case map_of ps (lit ''name'') of Some v \<Rightarrow> v | None \<Rightarrow> JStr (lit ''PTA Contest''))
                   (case map_of ps (lit ''id'') of Some v \<Rightarrow> v | None \<Rightarrow> JStr (lit ''0''))
                   start d))),
              contest_start_dt := Some start\<rparr>)"
  unfolding process_exam_info_def
  apply (subst bnd_gets)
  apply (subst bnd_safe_request_ok[where resp=resp and j=data])
  using resp ok apply simp_all[4]
  apply (simp add: sub_element_root_def root bnd_def modify_def Let_def ps st en utc dur lift_def
      extend_last_def sub_element_def)
  done

lemma child_text_length_info:
  "child_text ''length'' (Elem t x ta (info_children E name cid start d)) = Some (JStr (duration_str d))"
  by (simp add: child_text_def info_children_def leaf_def)

lemma fmt_02d_digits:
  "0 \<le> i \<Longrightarrow> i < 100 \<Longrightarrow> fmt_02d i = [48 + nat i div 10, 48 + nat i mod 10]"
proof (cases "i < 10")
  case True
  assume "0 \<le> i"
  with True have "nat i < 10"
    by linarith
  with True \<open>0 \<le> i\<close> show ?thesis
    by (simp add: fmt_02d_def digits.simps[of "nat i"])
next
  case False
  assume "i < 100"
  with False have "nat i div 10 < 10" "\<not> nat i < 10"
    by linarith+
  with False show ?thesis
    by (simp add: fmt_02d_def digits.simps[of "nat i"] digits.simps[of "nat i div 10"])
qed

lemma duration_str_shape:
  "duration_str d =
     str_int (d div 3600) @
     [58, 48 + nat (d div 60 mod 60) div 10, 48 + nat (d div 60 mod 60) mod 10,
      58, 48 + nat (d mod 60) div 10, 48 + nat (d mod 60) mod 10]"
proof -
  have "d div 60 div 60 = d div 3600"
    by (simp add: div_mult2_eq[symmetric])
  then show ?thesis
    by (simp add: duration_str_def Let_def fmt_02d_digits lit_def)
qed

lemma parse_time_sample:
  "parse_time sample_env (JStr (lit ''1970-01-01T00:00:00Z'')) = Inr \<lparr>wall_us = 0, utcoffset = Some 0\<rparr>"
  "parse_time sample_env (JStr (lit ''2024-05-01T09:00:00Z'')) = Inr \<lparr>wall_us = 1714554000000000, utcoffset = Some 0\<rparr>"
  "parse_time sample_env (JStr (lit ''2024-05-01T11:00:00Z'')) = Inr \<lparr>wall_us = 1714561200000000, utcoffset = Some 0\<rparr>"
  by (simp_all add: parse_time_def endswith_Z_def replace_char_def sample_env_def sample_iso_def lit_def)

lemma is_json_type_json_response [simp]: "is_json_type (json_response v)"
  by (simp add: is_json_type_def json_response_def lit_def)

lemma json_response_simps [simp]:
  "status_code (json_response v) = 200" "body_json (json_response v) = Inr v"
  by (simp_all add: json_response_def)

text \<open>
  What lines 238 to 258 compute for a problem set whose \<^verbatim>\<open>duration\<close> field is an integer
  \<open>n\<close> (or missing, which counts as 0) and whose timestamps parse: a positive \<open>n\<close> is the
  duration; otherwise the duration is the whole seconds of end minus start, whatever
  their sign; the value 18000 is taken only when that subtraction raises. The \<^verbatim>\<open>length\<close>
  field of the \<^verbatim>\<open>info\<close> element is the duration as hours, a colon, two digits of minutes,
  a colon and two digits of seconds.
\<close>

lemma duration_as_computed:
  assumes root: "contest_root s = Some r"
    and resp: "A (length (requests s)) (api_base @ py_str E (selected_problem_set_id s), None) = Inr resp"
    and ok: "status_code resp = 200" "is_json_type resp" "body_json resp = Inr data"
    and ps: "dict_get data (lit ''problemSet'') (JObj []) = Inr (JObj ps)"
    and st: "parse_time E (case map_of ps (lit ''startAt'') of Some v \<Rightarrow> v
                           | None \<Rightarrow> JStr (lit ''1970-01-01T00:00:00Z'')) = Inr start_dt"
    and en: "parse_time E (case map_of ps (lit ''endAt'') of Some v \<Rightarrow> v
                           | None \<Rightarrow> JStr (lit ''1970-01-01T00:00:00Z'')) = Inr end_dt"
    and utc: "astimezone_utc E start_dt = Inr start"
    and dur: "(case map_of ps (lit ''duration'') of Some v \<Rightarrow> v | None \<Rightarrow> JInt 0) = JInt n"
    and d: "d = (if 0 < n then n
                 else case dt_sub end_dt start_dt of
                        Inr delta \<Rightarrow> total_seconds_int delta
                      | Inl e \<Rightarrow> 18000)"
  shows "\<exists>s' info. process_exam_info E A s = (Inr (), s')
           \<and> contest_root s' = Some (sub_element r info)
           \<and> etag info = lit ''info''
           \<and> child_text ''length'' info = Some (JStr (duration_str d))
           \<and> duration_str d =
               str_int (d div 3600) @
               [58, 48 + nat (d div 60 mod 60) div 10, 48 + nat (d div 60 mod 60) mod 10,
                58, 48 + nat (d mod 60) div 10, 48 + nat (d mod 60) mod 10]"
proof -
  have "duration_sec (case map_of ps (lit ''duration'') of Some v \<Rightarrow> v | None \<Rightarrow> JInt 0)
          start_dt end_dt = Inr d"
    by (simp add: dur d duration_sec_def split: sum.split)
  from process_exam_info_result [where A = A, OF root resp ok ps st en utc this]
  obtain s' name cid where
    "process_exam_info E A s = (Inr (), s')"
    "contest_root s' = Some (sub_element r (Elem (lit ''info'') JNull JNull
       (info_children E name cid start d)))"
    by simp
  moreover have "etag (Elem (lit ''info'') JNull JNull (info_children E name cid start d)) = lit ''info''"
    by simp
  moreover note child_text_length_info [of "lit ''info''" JNull JNull E name cid start d]
    duration_str_shape [of d]
  ultimately show ?thesis
    by blast
qed

lemma duration_as_computed_example:
  "\<exists>s' info. process_exam_info sample_env sample_api prepared_state = (Inr (), s')
      \<and> contest_root s' = Some (sub_element (Elem (lit ''contest'') JNull JNull []) info)
      \<and> child_text ''length'' info = Some (JStr (lit ''2:00:00''))"
proof -
  have root: "contest_root prepared_state = Some (Elem (lit ''contest'') JNull JNull [])"
    by (simp add: prepared_state_def)
  have resp: "sample_api (length (requests prepared_state))
                (api_base @ py_str sample_env (selected_problem_set_id prepared_state), None)
              = Inr (json_response sample_detail)"
    by (simp add: sample_api_def prepared_state_def sample_state_def)
  have ps: "dict_get sample_detail (lit ''problemSet'') (JObj []) =
              Inr (JObj [(lit ''id'', JStr (lit ''42'')), (lit ''name'', JStr (lit ''Spring Contest'')),
                  (lit ''startAt'', JStr (lit ''2024-05-01T09:00:00Z'')),
                  (lit ''endAt'', JStr (lit ''2024-05-01T11:00:00Z'')),
                  (lit ''duration'', JInt 0)])"
    by (simp add: sample_detail_def)
  have d: "7200 = (if 0 < (0::int) then 0
                 else case dt_sub \<lparr>wall_us = 1714561200000000, utcoffset = Some 0\<rparr>
                                  \<lparr>wall_us = 1714554000000000, utcoffset = Some 0\<rparr> of
                        Inr delta \<Rightarrow> total_seconds_int delta
                      | Inl e \<Rightarrow> 18000)"
    by (simp add: dt_sub_def total_seconds_int_exact)
  have shown: "duration_str 7200 = lit ''2:00:00''"
    by (simp add: duration_str_shape str_int_def digits.simps lit_def)
  from duration_as_computed [where A = sample_api and E = sample_env and n = 0, OF root resp _ _ _ ps _ _ _ _ d]
  have "\<exists>s' info. process_exam_info sample_env sample_api prepared_state = (Inr (), s')
           \<and> contest_root s' = Some (sub_element (Elem (lit ''contest'') JNull JNull []) info)
           \<and> etag info = lit ''info''
           \<and> child_text ''length'' info = Some (JStr (lit ''2:00:00''))
           \<and> lit ''2:00:00'' = str_int 2 @ [58, 48, 48, 58, 48, 48]"
    by (simp add: parse_time_sample astimezone_utc_def shown)
  then show ?thesis
    by blast
qed


text \<open>
  Claim C1. The claim promises the default of 18000 seconds when neither the
  \<^verbatim>\<open>duration\<close> field nor the difference of the timestamps is positive, and so do the
  comments of the code (line 236 announces a double safeguard, line 246 the default of five
  hours for the case that everything has failed). The code tests the sign of the field
  only (line 241) and takes the difference as it comes. With no timestamps and no duration
  in the answer both timestamps default to the epoch, the difference is 0, and the
  \<^verbatim>\<open>length\<close> written is \<^verbatim>\<open>0:00:00\<close> instead of \<^verbatim>\<open>5:00:00\<close>.
\<close>

theorem duration_zero_not_defaulted:
  "fst (process_exam_info sample_env bare_api prepared_state) = Inr () \<and>
   map_option (child_text ''length'' \<circ> last \<circ> kids)
     (contest_root (snd (process_exam_info sample_env bare_api prepared_state)))
     = Some (Some (JStr (lit ''0:00:00'')))"
proof -
  have "process_exam_info sample_env bare_api prepared_state =
      (Inr (),
       prepared_state\<lparr>requests := requests prepared_state @
           [(api_base @ py_str sample_env (selected_problem_set_id prepared_state), None)],
         exam_info := JObj [(lit ''problemSet'', JObj [])],
         contest_root := Some (sub_element (Elem (lit ''contest'') JNull JNull [])
           (Elem (lit ''info'') JNull JNull
              (info_children sample_env (JStr (lit ''PTA Contest'')) (JStr (lit ''0''))
                 \<lparr>wall_us = 0, utcoffset = Some 0\<rparr> 0))),
         contest_start_dt := Some \<lparr>wall_us = 0, utcoffset = Some 0\<rparr>\<rparr>)"
  proof (rule process_exam_info_result
      [where resp = "json_response (JObj [(lit ''problemSet'', JObj [])])" and ps = "[]"
         and start_dt = "\<lparr>wall_us = 0, utcoffset = Some 0\<rparr>"
         and end_dt = "\<lparr>wall_us = 0, utcoffset = Some 0\<rparr>", simplified])
    show "contest_root prepared_state = Some (Elem (lit ''contest'') JNull JNull [])"
      by (simp add: prepared_state_def)
    show "bare_api (length (requests prepared_state))
            (api_base @ py_str sample_env (selected_problem_set_id prepared_state), None)
          = Inr (json_response (JObj [(lit ''problemSet'', JObj [])]))"
      by (simp add: bare_api_def)
    show "parse_time sample_env (JStr (lit ''1970-01-01T00:00:00Z''))
          = Inr \<lparr>wall_us = 0, utcoffset = Some 0\<rparr>"
      by (rule parse_time_sample)
    then show "parse_time sample_env (JStr (lit ''1970-01-01T00:00:00Z''))
          = Inr \<lparr>wall_us = 0, utcoffset = Some 0\<rparr>" .
    show "astimezone_utc sample_env \<lparr>wall_us = 0, utcoffset = Some 0\<rparr>
          = Inr \<lparr>wall_us = 0, utcoffset = Some 0\<rparr>"
      by (simp add: astimezone_utc_def)
    show "duration_sec (JInt 0) \<lparr>wall_us = 0, utcoffset = Some 0\<rparr>
            \<lparr>wall_us = 0, utcoffset = Some 0\<rparr> = Inr 0"
      by (simp add: duration_sec_def dt_sub_def total_seconds_int_exact)
  qed simp_all
  then show ?thesis
    by (simp add: sub_element_def child_text_length_info duration_str_shape str_int_def
        digits.simps lit_def)
qed

text \<open>
  An end before the start gives a negative length. The default is reached when one
  timestamp has an offset and the other has none.
\<close>

lemma duration_negative_example:
  "duration_sec (JInt 0) \<lparr>wall_us = 1714561200000000, utcoffset = Some 0\<rparr>
     \<lparr>wall_us = 1714554000000000, utcoffset = Some 0\<rparr> = Inr (- 7200)
   \<and> duration_str (- 7200) = lit ''-2:00:00''"
  by (simp add: duration_sec_def dt_sub_def total_seconds_int_exact duration_str_shape str_int_def
      digits.simps lit_def)

lemma duration_default_example:
  "duration_sec (JInt 0) \<lparr>wall_us = 1714554000000000, utcoffset = Some 0\<rparr>
     \<lparr>wall_us = 1714561200000000, utcoffset = None\<rparr> = Inr 18000
   \<and> duration_str 18000 = lit ''5:00:00''"
  by (simp add: duration_sec_def dt_sub_def duration_str_shape str_int_def digits.simps lit_def)

section \<open>Submissions\<close>

lemma digits_range: "set (digits n) \<subseteq> {48..<58}"
proof (induction n rule: digits.induct)
  case (1 n)
  show ?case
  proof (cases "n < 10")
    case True
    then show ?thesis by (simp add: digits.simps[of n])
  next
    case False
    with 1 have "set (digits (n div 10)) \<subseteq> {48..<58}" by simp
    moreover have "48 + n mod 10 < 58" by simp
    ultimately show ?thesis using False by (simp add: digits.simps[of n])
  qed
qed

lemma str_int_no_sign: "0 \<le> n \<Longrightarrow> 45 \<notin> set (str_int n)"
  using digits_range[of "nat n"] by (auto simp: str_int_def)

lemma rel_time_sec_nonneg: "rel_time_sec a b = Inr n \<Longrightarrow> 0 \<le> n"
  by (auto simp: rel_time_sec_def rbind_def split: sum.splits if_splits)

lemma child_text_time_run:
  "child_text ''time'' (run_element E counter lang conf team rel submit_at solved penalty acr)
     = Some (JStr (str_int rel))"
  by (simp add: child_text_def run_element_def leaf_def)

lemma child_text_id_run:
  "child_text ''id'' (run_element E counter lang conf team rel submit_at solved penalty acr)
     = Some (JStr (str_int counter))"
  by (simp add: child_text_def run_element_def leaf_def)

lemma add_submission_node_outcome:
  assumes "add_submission_node E sub counter s = (Inr (), s')"
  shows "(s' = s \<and>
          (\<exists>pid k. dict_get sub (lit ''problemSetProblemId'') JNull = Inr pid \<and>
             py_key pid = Inr k \<and> map_of (label_map s) k = None))
       \<or> (\<exists>r lang conf team rel at submit_at start solved penalty acr.
            contest_root s = Some r \<and> contest_start_dt s = Some start \<and>
            dict_index sub (lit ''submitAt'') = Inr (JStr at) \<and>
            fromisoformat E (replace_char 90 (lit ''+00:00'') at) = Inr submit_at \<and>
            rel_time_sec submit_at start = Inr rel \<and>
            s' = s\<lparr>contest_root := Some (sub_element r
                   (run_element E counter lang conf team rel submit_at solved penalty acr))\<rparr>)"
  using assms
  unfolding add_submission_node_def
  apply (auto simp: bnd_def lift_def gets_def ret_def sub_element_root_def Let_def
      split: sum.splits option.splits prod.splits json.splits)
  apply blast+
  done

lemma add_submission_node_absent:
  assumes "dict_get sub (lit ''problemSetProblemId'') JNull = Inr pid"
    and "py_key pid = Inr k" and "map_of (label_map s) k = None"
  shows "add_submission_node E sub counter s = (Inr (), s)"
  using assms by (simp add: add_submission_node_def ret_def)

lemma add_submission_node_emits:
  assumes "sub = JObj kvs"
    and "py_key (case map_of kvs (lit ''problemSetProblemId'') of Some v \<Rightarrow> v | None \<Rightarrow> JNull) = Inr k"
    and "map_of (label_map s) k = Some conf"
    and "(case map_of kvs (lit ''status'') of Some v \<Rightarrow> v | None \<Rightarrow> JStr (lit ''UNKNOWN'')) = pta_status"
    and "result_acronym pta_status = Inr acr"
    and "(case map_of kvs (lit ''compiler'') of Some v \<Rightarrow> v | None \<Rightarrow> JStr (lit ''UNKNOWN'')) = JStr cname"
    and "table_get compiler_map (JStr (str_upper E cname)) (lit ''1'') = Inr lang"
    and "map_of kvs (lit ''submitAt'') = Some (JStr at)"
    and "fromisoformat E (replace_char 90 (lit ''+00:00'') at) = Inr submit_at"
    and "contest_start_dt s = Some start"
    and "rel_time_sec submit_at start = Inr rel"
    and "contest_root s = Some r"
  shows "add_submission_node E sub counter s =
           (Inr (), s\<lparr>contest_root := Some (sub_element r
              (run_element E counter lang conf
                 (case map_of kvs (lit ''userId'') of Some v \<Rightarrow> v | None \<Rightarrow> JNull)
                 rel submit_at
                 (if pta_status = JStr (lit ''ACCEPTED'') then ''true'' else ''false'')
                 (if pta_status = JStr (lit ''COMPILE_ERROR'') then ''false'' else ''true'')
                 acr))\<rparr>)"
  using assms
  by (simp add: add_submission_node_def Let_def sub_element_root_def del: table_get.simps)

lemma add_submission_node_label_map:
  "add_submission_node E sub counter s = (res, s') \<Longrightarrow>
     label_map s' = label_map s \<and> contest_start_dt s' = contest_start_dt s"
  by (auto simp: add_submission_node_def bnd_def lift_def gets_def ret_def sub_element_root_def
      Let_def split: sum.splits option.splits prod.splits)

lemma page_loop_label_map:
  "page_loop E subs counter s = (res, s') \<Longrightarrow>
     label_map s' = label_map s \<and> contest_start_dt s' = contest_start_dt s"
proof (induction subs arbitrary: counter s)
  case Nil
  then show ?case by (simp add: ret_def)
next
  case (Cons sub subs)
  obtain r1 s1 where one: "add_submission_node E sub counter s = (r1, s1)"
    by (cases "add_submission_node E sub counter s")
  show ?case
  proof (cases r1)
    case (Inl e)
    with one Cons.prems add_submission_node_label_map [OF one] show ?thesis
      by (simp add: bnd_def)
  next
    case (Inr u)
    with one Cons.prems have "page_loop E subs (counter + 1) s1 = (res, s')"
      by (simp add: bnd_def)
    from Cons.IH [OF this] add_submission_node_label_map [OF one] show ?thesis
      by simp
  qed
qed

lemma page_loop_counter:
  "page_loop E subs counter s = (Inr c', s') \<Longrightarrow> c' = counter + int (length subs)"
proof (induction subs arbitrary: counter s)
  case Nil
  then show ?case by (simp add: ret_def)
next
  case (Cons sub subs)
  from Cons.prems obtain s1 where "page_loop E subs (counter + 1) s1 = (Inr c', s')"
    by (auto simp: bnd_def split: sum.splits prod.splits)
  from Cons.IH [OF this] show ?case
    by simp
qed

lemma page_loop_append:
  "page_loop E (xs @ ys) counter s =
     bnd (page_loop E xs counter) (\<lambda>_. page_loop E ys (counter + int (length xs))) s"
proof (induction xs arbitrary: counter s)
  case Nil
  then show ?case by simp
next
  case (Cons x xs)
  show ?case
    by (simp add: bnd_def Cons.IH add.assoc split: sum.splits prod.splits)
qed


lemma sub_gone_dropped:
  assumes "label_map s = label_map labelled_state"
  shows "add_submission_node sample_env sub_gone c s = (Inr (), s)"
  by (rule add_submission_node_absent [where pid = "JStr (lit ''p9'')" and k = "JStr (lit ''p9'')"])
    (simp_all add: sub_gone_def assms labelled_state_def)

lemma sub_early_run:
  assumes "label_map s = label_map labelled_state"
    and "contest_start_dt s = contest_start_dt labelled_state"
    and "contest_root s = Some r"
  shows "add_submission_node sample_env sub_early c s =
     (Inr (), s\<lparr>contest_root := Some (sub_element r
        (run_element sample_env c (lit ''4'') \<lparr>xml_id = lit ''2'', letter = lit ''B''\<rparr>
           (JStr (lit ''u1'')) 0 \<lparr>wall_us = 1714553970000000, utcoffset = Some 0\<rparr>
           ''false'' ''true'' (lit ''WA'')))\<rparr>)"
proof -
  have "add_submission_node sample_env sub_early c s =
     (Inr (), s\<lparr>contest_root := Some (sub_element r
        (run_element sample_env c (lit ''4'') \<lparr>xml_id = lit ''2'', letter = lit ''B''\<rparr>
           (case map_of [(lit ''id'', JStr (lit ''901'')), (lit ''problemSetProblemId'', JStr (lit ''p2'')),
           (lit ''status'', JStr (lit ''JUDGING'')), (lit ''compiler'', JStr (lit ''PYTHON3'')),
           (lit ''submitAt'', JStr (lit ''2024-05-01T08:59:30Z'')), (lit ''userId'', JStr (lit ''u1''))] (lit ''userId'') of Some v \<Rightarrow> v | None \<Rightarrow> JNull)
            0 \<lparr>wall_us = 1714553970000000, utcoffset = Some 0\<rparr>
           (if JStr (lit ''JUDGING'') = JStr (lit ''ACCEPTED'') then ''true'' else ''false'')
           (if JStr (lit ''JUDGING'') = JStr (lit ''COMPILE_ERROR'') then ''false'' else ''true'')
            (lit ''WA'')))\<rparr>)"
  proof (rule add_submission_node_emits [where k = "JStr (lit ''p2'')" and cname = "lit ''PYTHON3''"
        and at = "lit ''2024-05-01T08:59:30Z''"
        and start = "\<lparr>wall_us = 1714554000000000, utcoffset = Some 0\<rparr>"])
    show "sub_early = JObj [(lit ''id'', JStr (lit ''901'')), (lit ''problemSetProblemId'', JStr (lit ''p2'')),
           (lit ''status'', JStr (lit ''JUDGING'')), (lit ''compiler'', JStr (lit ''PYTHON3'')),
           (lit ''submitAt'', JStr (lit ''2024-05-01T08:59:30Z'')), (lit ''userId'', JStr (lit ''u1''))]"
      by (simp add: sub_early_def)
    show "result_acronym (JStr (lit ''JUDGING'')) = Inr (lit ''WA'')"
      by (simp add: result_acronym_def result_map_def)
    show "table_get compiler_map (JStr (str_upper sample_env (lit ''PYTHON3''))) (lit ''1'') = Inr (lit ''4'')"
      by (simp add: sample_env_def compiler_map_def lit_def)
    show "fromisoformat sample_env (replace_char 90 (lit ''+00:00'') (lit ''2024-05-01T08:59:30Z''))
            = Inr \<lparr>wall_us = 1714553970000000, utcoffset = Some 0\<rparr>"
      by (simp add: sample_env_def sample_iso_def replace_char_def lit_def)
    show "rel_time_sec \<lparr>wall_us = 1714553970000000, utcoffset = Some 0\<rparr>
            \<lparr>wall_us = 1714554000000000, utcoffset = Some 0\<rparr> = Inr 0"
      by (simp add: rel_time_sec_def rbind_def dt_sub_def total_seconds_int_exact)
  qed (simp_all add: assms labelled_state_def)
  then show ?thesis
    by simp
qed

subsection \<open>Relative time\<close>

text \<open>
  Claim C3. Whenever \<^verbatim>\<open>_add_submission_node\<close> returns, it has either dropped the submission
  (its problem is not in the lookup) and left the state as it was, or appended one \<^verbatim>\<open>run\<close>
  element. In that case the \<^verbatim>\<open>submitAt\<close> field of the submission is a string that
  \<^verbatim>\<open>fromisoformat\<close> reads, and with \<open>delta\<close> the difference between that time and the
  contest start, in microseconds, the \<^verbatim>\<open>time\<close> field of the run is the text of 0 when
  \<open>delta\<close> is negative and of \<^verbatim>\<open>int(delta.total_seconds())\<close> otherwise: a number that is not
  negative, written without a minus sign, and the exact number of whole seconds while the
  difference is below \<open>2\<^sup>3\<^sup>3\<close> seconds.
\<close>

theorem relative_time_never_negative:
  assumes "add_submission_node E sub counter s = (Inr (), s')"
  shows "(s' = s \<and>
          (\<exists>pid k. dict_get sub (lit ''problemSetProblemId'') JNull = Inr pid \<and>
             py_key pid = Inr k \<and> map_of (label_map s) k = None))
       \<or> (\<exists>r run at submit_at start delta.
            contest_root s = Some r \<and> contest_root s' = Some (sub_element r run) \<and>
            etag run = lit ''run'' \<and>
            dict_index sub (lit ''submitAt'') = Inr (JStr at) \<and>
            fromisoformat E (replace_char 90 (lit ''+00:00'') at) = Inr submit_at \<and>
            contest_start_dt s = Some start \<and>
            dt_sub submit_at start = Inr delta \<and>
            child_text ''time'' run =
              Some (JStr (str_int (if delta < 0 then 0 else total_seconds_int delta))) \<and>
            0 \<le> (if delta < 0 then 0 else total_seconds_int delta) \<and>
            45 \<notin> set (str_int (if delta < 0 then 0 else total_seconds_int delta)) \<and>
            (0 \<le> delta \<and> delta < 1000000 * 2 ^ 33 \<longrightarrow>
               total_seconds_int delta = delta div 1000000))"
proof -
  from add_submission_node_outcome [OF assms] show ?thesis
  proof (elim disjE exE conjE)
    fix pid k
    assume "s' = s" "dict_get sub (lit ''problemSetProblemId'') JNull = Inr pid"
      "py_key pid = Inr k" "map_of (label_map s) k = None"
    then show ?thesis
      by blast
  next
    fix r lang conf team rel at submit_at start solved penalty acr
    assume r: "contest_root s = Some r" and start: "contest_start_dt s = Some start"
      and at: "dict_index sub (lit ''submitAt'') = Inr (JStr at)"
      and iso: "fromisoformat E (replace_char 90 (lit ''+00:00'') at) = Inr submit_at"
      and rel: "rel_time_sec submit_at start = Inr rel"
      and s': "s' = s\<lparr>contest_root := Some (sub_element r
               (run_element E counter lang conf team rel submit_at solved penalty acr))\<rparr>"
    from rel obtain delta where
      delta: "dt_sub submit_at start = Inr delta" and
      rel': "rel = (if total_seconds_int delta < 0 then 0 else total_seconds_int delta)"
      by (auto simp: rel_time_sec_def rbind_def split: sum.splits)
    let ?t = "if delta < 0 then 0 else total_seconds_int delta"
    have t: "rel = ?t"
    proof (cases "delta < 0")
      case True
      with total_seconds_int_sign(2) [of delta] show ?thesis
        by (auto simp: rel')
    next
      case False
      with total_seconds_int_sign(1) [of delta] show ?thesis
        by (auto simp: rel')
    qed
    have nonneg: "0 \<le> ?t"
      using total_seconds_int_sign(1) [of delta] by simp
    let ?run = "run_element E counter lang conf team rel submit_at solved penalty acr"
    have "contest_root s' = Some (sub_element r ?run)"
      by (simp add: s')
    moreover have "etag ?run = lit ''run''"
      by (simp add: run_element_def)
    moreover have "child_text ''time'' ?run = Some (JStr (str_int ?t))"
      by (simp only: child_text_time_run t)
    moreover have "45 \<notin> set (str_int ?t)"
      using nonneg by (rule str_int_no_sign)
    moreover have "0 \<le> delta \<and> delta < 1000000 * 2 ^ 33 \<longrightarrow>
        total_seconds_int delta = delta div 1000000"
      by (simp add: total_seconds_int_exact)
    ultimately show ?thesis
      using r start at iso delta nonneg by blast
  qed
qed

theorem relative_time_never_negative_witness:
  "add_submission_node sample_env sub_early 3 labelled_state =
     (Inr (), labelled_state\<lparr>contest_root := Some (sub_element (Elem (lit ''contest'') JNull JNull [])
        (run_element sample_env 3 (lit ''4'') \<lparr>xml_id = lit ''2'', letter = lit ''B''\<rparr>
           (JStr (lit ''u1'')) 0 \<lparr>wall_us = 1714553970000000, utcoffset = Some 0\<rparr>
           ''false'' ''true'' (lit ''WA'')))\<rparr>)
   \<and> (\<exists>run. contest_root (snd (add_submission_node sample_env sub_early 3 labelled_state))
               = Some (sub_element (Elem (lit ''contest'') JNull JNull []) run)
          \<and> etag run = lit ''run''
          \<and> dt_sub \<lparr>wall_us = 1714553970000000, utcoffset = Some 0\<rparr>
                    \<lparr>wall_us = 1714554000000000, utcoffset = Some 0\<rparr> = Inr (- 30000000)
          \<and> child_text ''time'' run = Some (JStr (lit ''0'')))"
proof -
  let ?r0 = "Elem (lit ''contest'') JNull JNull []"
  let ?s' = "labelled_state\<lparr>contest_root := Some (sub_element ?r0
        (run_element sample_env 3 (lit ''4'') \<lparr>xml_id = lit ''2'', letter = lit ''B''\<rparr>
           (JStr (lit ''u1'')) 0 \<lparr>wall_us = 1714553970000000, utcoffset = Some 0\<rparr>
           ''false'' ''true'' (lit ''WA'')))\<rparr>"
  have run: "add_submission_node sample_env sub_early 3 labelled_state = (Inr (), ?s')"
    by (rule sub_early_run) (simp_all add: labelled_state_def prepared_state_def)
  have known: "\<not> (\<exists>pid k. dict_get sub_early (lit ''problemSetProblemId'') JNull = Inr pid \<and>
             py_key pid = Inr k \<and> map_of (label_map labelled_state) k = None)"
    by (auto simp: sub_early_def labelled_state_def)
  from relative_time_never_negative [OF run] known
  obtain r run at submit_at start delta where
    r: "contest_root labelled_state = Some r" and
    root': "contest_root ?s' = Some (sub_element r run)" and
    tag: "etag run = lit ''run''" and
    at: "dict_index sub_early (lit ''submitAt'') = Inr (JStr at)" and
    iso: "fromisoformat sample_env (replace_char 90 (lit ''+00:00'') at) = Inr submit_at" and
    start: "contest_start_dt labelled_state = Some start" and
    delta: "dt_sub submit_at start = Inr delta" and
    time: "child_text ''time'' run =
              Some (JStr (str_int (if delta < 0 then 0 else total_seconds_int delta)))"
    by blast
  from r have r0: "r = ?r0"
    by (simp add: labelled_state_def prepared_state_def)
  from at have "at = lit ''2024-05-01T08:59:30Z''"
    by (simp add: sub_early_def)
  with iso have submit: "submit_at = \<lparr>wall_us = 1714553970000000, utcoffset = Some 0\<rparr>"
    by (simp add: sample_env_def sample_iso_def replace_char_def lit_def)
  from start have st: "start = \<lparr>wall_us = 1714554000000000, utcoffset = Some 0\<rparr>"
    by (simp add: labelled_state_def)
  from delta have d: "delta = - 30000000"
    by (simp add: submit st dt_sub_def)
  have "str_int 0 = lit ''0''"
    by (simp add: str_int_def digits.simps lit_def)
  with time d have "child_text ''time'' run = Some (JStr (lit ''0''))"
    by simp
  moreover from delta have "dt_sub \<lparr>wall_us = 1714553970000000, utcoffset = Some 0\<rparr>
                    \<lparr>wall_us = 1714554000000000, utcoffset = Some 0\<rparr> = Inr (- 30000000)"
    by (simp add: submit st d)
  ultimately show ?thesis
    using run root' tag r0 by auto
qed


subsection \<open>Submissions for problems that are not listed\<close>

text \<open>
  What \<^verbatim>\<open>_add_submission_node\<close> does depends on the counter only through the id of the
  element it appends: a page gives the same outcome and the same elements from every
  counter and every document, but for the ids, which are the counter plus the position
  on the page.
\<close>

lemma bnd_lift_case: "bnd (lift r) f s = (case r of Inl e \<Rightarrow> (Inl e, s) | Inr x \<Rightarrow> f x s)"
  by (simp add: bnd_def lift_def split: sum.splits)

lemma case_rbind:
  "(case rbind r g of Inl e \<Rightarrow> a e | Inr v \<Rightarrow> b v) =
     (case r of Inl e \<Rightarrow> a e | Inr x \<Rightarrow> (case g x of Inl e \<Rightarrow> a e | Inr v \<Rightarrow> b v))"
  by (simp add: rbind_def split: sum.splits)

lemma case_option_apply:
  "(case x of None \<Rightarrow> f | Some y \<Rightarrow> g y) s = (case x of None \<Rightarrow> f s | Some y \<Rightarrow> g y s)"
  by (cases x) simp_all

lemma case_case_option:
  "(case (case x of None \<Rightarrow> u | Some y \<Rightarrow> v y) of Inl e \<Rightarrow> a e | Inr w \<Rightarrow> b w) =
     (case x of None \<Rightarrow> (case u of Inl e \<Rightarrow> a e | Inr w \<Rightarrow> b w)
      | Some y \<Rightarrow> (case v y of Inl e \<Rightarrow> a e | Inr w \<Rightarrow> b w))"
  by (cases x) simp_all

lemma add_submission_node_fields:
  assumes "contest_root s = Some r"
  shows "add_submission_node E sub c s =
     (case submission_fields E (label_map s) (contest_start_dt s) sub of
        Inl e \<Rightarrow> (Inl e, s)
      | Inr None \<Rightarrow> (Inr (), s)
      | Inr (Some f) \<Rightarrow> (Inr (), with_runs r [run_at E c (0, f)] s))"
  unfolding add_submission_node_def submission_fields_def
  by (simp add: bnd_lift_case case_rbind case_option_apply case_case_option ret_def Let_def
      sub_element_root_def assms with_runs_def run_at_def sub_element_def
      del: table_get.simps bnd_lift_Inr bnd_lift_Inl
      cong: sum.case_cong option.case_cong)


lemma with_runs_simps [simp]:
  "label_map (with_runs r rs s) = label_map s"
  "contest_start_dt (with_runs r rs s) = contest_start_dt s"
  "contest_root (with_runs r rs s) = Some (Elem (etag r) (etext r) (etail r) (kids r @ rs))"
  by (simp_all add: with_runs_def)

lemma with_runs_Nil: "contest_root s = Some r \<Longrightarrow> with_runs r [] s = s"
  by (cases r) (simp add: with_runs_def)

lemma with_runs_append:
  "with_runs (Elem (etag r) (etext r) (etail r) (kids r @ a)) b (with_runs r a s) = with_runs r (a @ b) s"
  by (simp add: with_runs_def)

lemma run_at_Suc: "run_at E c (Suc i, f) = run_at E (c + 1) (i, f)"
  by (simp add: run_at_def add.assoc add.commute [of 1] split: prod.splits)

lemma page_loop_rows:
  "\<exists>rows err. (\<forall>row \<in> set rows. fst row < length ys) \<and>
     (\<forall>c s r. label_map s = L \<longrightarrow> contest_start_dt s = st \<longrightarrow> contest_root s = Some r \<longrightarrow>
        page_loop E ys c s =
          (case err of None \<Rightarrow> Inr (c + int (length ys)) | Some e \<Rightarrow> Inl e,
           with_runs r (map (run_at E c) rows) s))"
proof (induction ys)
  case Nil
  show ?case
    by (rule exI [of _ "[]"], rule exI [of _ None]) (simp add: ret_def with_runs_Nil)
next
  case (Cons y ys)
  then obtain rows err where
    pos: "\<forall>row \<in> set rows. fst row < length ys" and
    rest: "\<And>c s r. label_map s = L \<Longrightarrow> contest_start_dt s = st \<Longrightarrow> contest_root s = Some r \<Longrightarrow>
        page_loop E ys c s =
          (case err of None \<Rightarrow> Inr (c + int (length ys)) | Some e \<Rightarrow> Inl e,
           with_runs r (map (run_at E c) rows) s)"
    by blast
  let ?up = "map (\<lambda>(i, f). (Suc i, f)) rows"
  have up: "map (run_at E c) ?up = map (run_at E (c + 1)) rows" for c
    by (simp add: run_at_Suc case_prod_unfold)
  have up_pos: "\<forall>row \<in> set ?up. fst row < length (y # ys)"
    using pos by auto
  show ?case
  proof (cases "submission_fields E L st y")
    case (Inl e)
    have "page_loop E (y # ys) c s = (Inl e, with_runs r (map (run_at E c) []) s)"
      if "label_map s = L" "contest_start_dt s = st" "contest_root s = Some r" for c s r
      using that by (simp add: bnd_def add_submission_node_fields Inl with_runs_Nil)
    then show ?thesis
      by (intro exI [of _ "[]"] exI [of _ "Some e"]) simp
  next
    case (Inr found)
    show ?thesis
    proof (cases found)
      case None
      have "page_loop E (y # ys) c s =
          (case err of None \<Rightarrow> Inr (c + int (length (y # ys))) | Some e \<Rightarrow> Inl e,
           with_runs r (map (run_at E c) ?up) s)"
        if "label_map s = L" "contest_start_dt s = st" "contest_root s = Some r" for c s r
        using that
        by (simp add: bnd_def add_submission_node_fields Inr None rest up add.assoc
            add.commute [of 1] del: map_map split: option.splits)
      with up_pos show ?thesis
        by blast
    next
      case (Some f)
      have "page_loop E (y # ys) c s =
          (case err of None \<Rightarrow> Inr (c + int (length (y # ys))) | Some e \<Rightarrow> Inl e,
           with_runs r (map (run_at E c) ((0, f) # ?up)) s)"
        if "label_map s = L" "contest_start_dt s = st" "contest_root s = Some r" for c s r
      proof -
        let ?s1 = "with_runs r [run_at E c (0, f)] s"
        have one: "add_submission_node E y c s = (Inr (), ?s1)"
          using that by (simp add: add_submission_node_fields Inr Some)
        have "page_loop E ys (c + 1) ?s1 =
          (case err of None \<Rightarrow> Inr (c + 1 + int (length ys)) | Some e \<Rightarrow> Inl e,
           with_runs (Elem (etag r) (etext r) (etail r) (kids r @ [run_at E c (0, f)]))
             (map (run_at E (c + 1)) rows) ?s1)"
          using that by (intro rest) simp_all
        then show ?thesis
          by (simp add: bnd_def one with_runs_append up add.assoc add.commute [of 1]
              del: map_map split: option.splits)
      qed
      moreover have "\<forall>row \<in> set ((0, f) # ?up). fst row < length (y # ys)"
        using up_pos by simp
      ultimately show ?thesis
        by blast
    qed
  qed
qed


lemma run_at_id: "child_text ''id'' (run_at E c (i, f)) = Some (JStr (str_int (c + int i)))"
  by (simp add: run_at_def child_text_id_run split: prod.splits)

text \<open>
  Claim C4, as the code has it. A submission \<open>d\<close> whose problem id is not a key of
  \<^verbatim>\<open>label_map\<close> leaves the state unchanged: no \<^verbatim>\<open>run\<close> element and no other effect. A page
  with \<open>d\<close> between the submissions \<open>xs\<close> and \<open>ys\<close> is processed as the page without \<open>d\<close> is:
  the same exception or none, the same elements for \<open>xs\<close> with the same ids, and the same
  elements for \<open>ys\<close>, except that \<open>d\<close> has taken a run id, so every element for \<open>ys\<close> has
  an id one higher than without \<open>d\<close>, as has the counter after the page.
\<close>

theorem dropped_submission_frame:
  assumes pid: "dict_get d (lit ''problemSetProblemId'') JNull = Inr pid"
    and k: "py_key pid = Inr k"
    and absent: "map_of (label_map s) k = None"
    and root: "contest_root s = Some r"
  shows "(\<forall>c. add_submission_node E d c s = (Inr (), s))
       \<and> (\<exists>rows_x rows_y err.
            (\<forall>row \<in> set rows_x. fst row < length xs) \<and>
            (\<forall>row \<in> set rows_y. fst row < length ys) \<and>
            (\<forall>c. page_loop E (xs @ d # ys) c s =
                   (case err of
                      None \<Rightarrow> Inr (c + int (length xs) + 1 + int (length ys))
                    | Some e \<Rightarrow> Inl e,
                    with_runs r (map (run_at E c) rows_x @
                                 map (run_at E (c + int (length xs) + 1)) rows_y) s)
               \<and> page_loop E (xs @ ys) c s =
                   (case err of
                      None \<Rightarrow> Inr (c + int (length xs) + int (length ys))
                    | Some e \<Rightarrow> Inl e,
                    with_runs r (map (run_at E c) rows_x @
                                 map (run_at E (c + int (length xs))) rows_y) s)))
       \<and> (\<forall>c i f. child_text ''id'' (run_at E c (i, f)) = Some (JStr (str_int (c + int i))))"
proof (intro conjI allI)
  fix c
  show "add_submission_node E d c s = (Inr (), s)"
    by (rule add_submission_node_absent [OF pid k absent])
next
  fix c i f
  show "child_text ''id'' (run_at E c (i, f)) = Some (JStr (str_int (c + int i)))"
    by (rule run_at_id)
next
  from page_loop_rows [of xs "label_map s" "contest_start_dt s" E]
  obtain rows_x err_x where
    pos_x: "\<forall>row \<in> set rows_x. fst row < length xs" and
    run_x: "\<And>c s' r'. label_map s' = label_map s \<Longrightarrow> contest_start_dt s' = contest_start_dt s \<Longrightarrow>
        contest_root s' = Some r' \<Longrightarrow>
        page_loop E xs c s' =
          (case err_x of None \<Rightarrow> Inr (c + int (length xs)) | Some e \<Rightarrow> Inl e,
           with_runs r' (map (run_at E c) rows_x) s')"
    by blast
  from page_loop_rows [of ys "label_map s" "contest_start_dt s" E]
  obtain rows_y err_y where
    pos_y: "\<forall>row \<in> set rows_y. fst row < length ys" and
    run_y: "\<And>c s' r'. label_map s' = label_map s \<Longrightarrow> contest_start_dt s' = contest_start_dt s \<Longrightarrow>
        contest_root s' = Some r' \<Longrightarrow>
        page_loop E ys c s' =
          (case err_y of None \<Rightarrow> Inr (c + int (length ys)) | Some e \<Rightarrow> Inl e,
           with_runs r' (map (run_at E c) rows_y) s')"
    by blast
  show "\<exists>rows_x rows_y err.
            (\<forall>row \<in> set rows_x. fst row < length xs) \<and>
            (\<forall>row \<in> set rows_y. fst row < length ys) \<and>
            (\<forall>c. page_loop E (xs @ d # ys) c s =
                   (case err of
                      None \<Rightarrow> Inr (c + int (length xs) + 1 + int (length ys))
                    | Some e \<Rightarrow> Inl e,
                    with_runs r (map (run_at E c) rows_x @
                                 map (run_at E (c + int (length xs) + 1)) rows_y) s)
               \<and> page_loop E (xs @ ys) c s =
                   (case err of
                      None \<Rightarrow> Inr (c + int (length xs) + int (length ys))
                    | Some e \<Rightarrow> Inl e,
                    with_runs r (map (run_at E c) rows_x @
                                 map (run_at E (c + int (length xs))) rows_y) s))"
  proof (cases err_x)
    case (Some e)
    have "page_loop E (xs @ zs) c s = (Inl e, with_runs r (map (run_at E c) rows_x @ map g []) s)"
      for zs c g
      by (simp add: page_loop_append bnd_def run_x [OF refl refl root] Some)
    then have "\<forall>c. page_loop E (xs @ d # ys) c s =
                   (case Some e of
                      None \<Rightarrow> Inr (c + int (length xs) + 1 + int (length ys))
                    | Some e \<Rightarrow> Inl e,
                    with_runs r (map (run_at E c) rows_x @
                                 map (run_at E (c + int (length xs) + 1)) []) s)
               \<and> page_loop E (xs @ ys) c s =
                   (case Some e of
                      None \<Rightarrow> Inr (c + int (length xs) + int (length ys))
                    | Some e \<Rightarrow> Inl e,
                    with_runs r (map (run_at E c) rows_x @
                                 map (run_at E (c + int (length xs))) []) s)"
      by simp
    with pos_x show ?thesis
      by (intro exI [of _ rows_x] exI [of _ "[]"] exI [of _ "Some e"]) simp
  next
    case None
    have both: "page_loop E (xs @ d # ys) c s =
                   (case err_y of
                      None \<Rightarrow> Inr (c + int (length xs) + 1 + int (length ys))
                    | Some e \<Rightarrow> Inl e,
                    with_runs r (map (run_at E c) rows_x @
                                 map (run_at E (c + int (length xs) + 1)) rows_y) s)
               \<and> page_loop E (xs @ ys) c s =
                   (case err_y of
                      None \<Rightarrow> Inr (c + int (length xs) + int (length ys))
                    | Some e \<Rightarrow> Inl e,
                    with_runs r (map (run_at E c) rows_x @
                                 map (run_at E (c + int (length xs))) rows_y) s)" for c
    proof -
      let ?s1 = "with_runs r (map (run_at E c) rows_x) s"
      let ?r1 = "Elem (etag r) (etext r) (etail r) (kids r @ map (run_at E c) rows_x)"
      have x: "page_loop E xs c s = (Inr (c + int (length xs)), ?s1)"
        by (simp add: run_x [OF refl refl root] None)
      have drop: "add_submission_node E d c' ?s1 = (Inr (), ?s1)" for c'
        by (rule add_submission_node_absent [OF pid k]) (simp add: absent)
      have y: "page_loop E ys c' ?s1 =
          (case err_y of None \<Rightarrow> Inr (c' + int (length ys)) | Some e \<Rightarrow> Inl e,
           with_runs r (map (run_at E c) rows_x @ map (run_at E c') rows_y) s)" for c'
        by (simp add: run_y [of ?s1 ?r1] with_runs_append)
      show ?thesis
        by (simp add: page_loop_append bnd_def x drop y)
    qed
    from pos_x pos_y both show ?thesis
      by blast
  qed
qed


theorem dropped_submission_frame_witness:
  "dict_get sub_gone (lit ''problemSetProblemId'') JNull = Inr (JStr (lit ''p9''))
   \<and> py_key (JStr (lit ''p9'')) = Inr (JStr (lit ''p9''))
   \<and> map_of (label_map labelled_state) (JStr (lit ''p9'')) = None
   \<and> contest_root labelled_state = Some (Elem (lit ''contest'') JNull JNull [])
   \<and> (\<forall>c. add_submission_node sample_env sub_gone c labelled_state = (Inr (), labelled_state))
   \<and> (\<exists>rows_x rows_y err.
            (\<forall>row \<in> set rows_x. fst row < length [sub_late]) \<and>
            (\<forall>row \<in> set rows_y. fst row < length [sub_early]) \<and>
            (\<forall>c. page_loop sample_env ([sub_late] @ sub_gone # [sub_early]) c labelled_state =
                   (case err of
                      None \<Rightarrow> Inr (c + int (length [sub_late]) + 1 + int (length [sub_early]))
                    | Some e \<Rightarrow> Inl e,
                    with_runs (Elem (lit ''contest'') JNull JNull [])
                      (map (run_at sample_env c) rows_x @
                       map (run_at sample_env (c + int (length [sub_late]) + 1)) rows_y) labelled_state)
               \<and> page_loop sample_env ([sub_late] @ [sub_early]) c labelled_state =
                   (case err of
                      None \<Rightarrow> Inr (c + int (length [sub_late]) + int (length [sub_early]))
                    | Some e \<Rightarrow> Inl e,
                    with_runs (Elem (lit ''contest'') JNull JNull [])
                      (map (run_at sample_env c) rows_x @
                       map (run_at sample_env (c + int (length [sub_late]))) rows_y) labelled_state)))"
proof -
  have a: "dict_get sub_gone (lit ''problemSetProblemId'') JNull = Inr (JStr (lit ''p9''))"
    by (simp add: sub_gone_def)
  have b: "py_key (JStr (lit ''p9'')) = Inr (JStr (lit ''p9''))"
    by simp
  have c: "map_of (label_map labelled_state) (JStr (lit ''p9'')) = None"
    by (simp add: labelled_state_def)
  have r: "contest_root labelled_state = Some (Elem (lit ''contest'') JNull JNull [])"
    by (simp add: labelled_state_def prepared_state_def)
  from dropped_submission_frame [OF a b c r, of sample_env "[sub_late]" "[sub_early]"] a b c r
  show ?thesis
    by blast
qed

text \<open>
  The claim as stated has the run ids unchanged. With the dropped submission first on the
  page the next run gets id 2; without it, id 1.
\<close>

lemma run_ids_sample:
  "map_option (map (child_text ''id'') \<circ> kids)
     (contest_root (snd (page_loop sample_env [sub_gone, sub_early] 1 labelled_state)))
     = Some [Some (JStr (str_int 2))]"
  "map_option (map (child_text ''id'') \<circ> kids)
     (contest_root (snd (page_loop sample_env [sub_early] 1 labelled_state)))
     = Some [Some (JStr (str_int 1))]"
  by (simp_all add: sub_gone_dropped sub_early_run bnd_def ret_def sub_element_def
      child_text_id_run labelled_state_def prepared_state_def)

theorem dropped_submission_counterexample:
  "map_option (map (child_text ''id'') \<circ> kids)
     (contest_root (snd (page_loop sample_env [sub_gone, sub_early] 1 labelled_state)))
     = Some [Some (JStr (lit ''2''))]
   \<and> map_option (map (child_text ''id'') \<circ> kids)
     (contest_root (snd (page_loop sample_env [sub_early] 1 labelled_state)))
     = Some [Some (JStr (lit ''1''))]"
  unfolding run_ids_sample by (simp add: str_int_def digits.simps lit_def)


section \<open>Problem numbering\<close>

lemma uppercase_upt: "uppercase = map (\<lambda>i. 65 + i) [0..<26]"
  by (simp add: uppercase_def lit_def upt_rec)

lemma uppercase_nth: "i < 26 \<Longrightarrow> uppercase ! i = 65 + i"
  by (simp add: uppercase_upt del: upt_Suc)

lemma map_of_fold_update:
  "map_of (fold (\<lambda>(k, v). AList.update k v) kvs al) = map_of al ++ map_of (rev kvs)"
proof (induction kvs arbitrary: al)
  case Nil
  then show ?case by simp
next
  case (Cons kv kvs)
  obtain k v where kv: "kv = (k, v)" by (cases kv)
  have "(map_of al)(k \<mapsto> v) ++ map_of (rev kvs) = map_of al ++ (map_of (rev kvs))(k \<mapsto> v) ++ map_of (rev kvs)"
    by (simp add: map_add_def fun_eq_iff split: option.splits)
  then show ?case
    by (simp add: kv Cons.IH update_conv' map_add_def fun_eq_iff split: option.splits)
qed

lemma add_problem_step:
  assumes "contest_root s = Some r"
    and "rbind (dict_get p (lit ''id'') JNull) py_key = Inr k"
    and "i < 1114047"
  shows "add_problem (i, p) s =
     (Inr (), s\<lparr>label_map := AList.update k \<lparr>xml_id = str_int (int i + 1), letter = [65 + i]\<rparr> (label_map s),
               contest_root := Some (sub_element r (problem_element (str_int (int i + 1)) [65 + i]))\<rparr>)"
  using assms
  by (auto simp: add_problem_def rbind_def py_chr_def Let_def sub_element_root_def nat_add_distrib
      split: sum.splits)


lemma for_each_add_problem:
  assumes "list_all2 (\<lambda>p k. rbind (dict_get p (lit ''id'') JNull) py_key = Inr k) ps keys"
    and "contest_root s = Some r" and "n + length ps \<le> 1114047"
  shows "for_each add_problem (enumerate n ps) s =
     (Inr (),
      s\<lparr>label_map := fold (\<lambda>(i, k). AList.update k (problem_label i)) (enumerate n keys) (label_map s),
        contest_root := Some (Elem (etag r) (etext r) (etail r)
          (kids r @ map (\<lambda>i. problem_element (str_int (int i + 1)) [65 + i]) [n..<n + length ps]))\<rparr>)"
  using assms
proof (induction ps keys arbitrary: n s r rule: list_all2_induct)
  case Nil
  then show ?case
    by (cases r) (simp add: ret_def)
next
  case (Cons p ps k keys)
  from Cons.prems have n: "n < 1114047" and rest: "Suc n + length ps \<le> 1114047"
    by simp_all
  let ?s1 = "s\<lparr>label_map := AList.update k \<lparr>xml_id = str_int (int n + 1), letter = [65 + n]\<rparr> (label_map s),
               contest_root := Some (sub_element r (problem_element (str_int (int n + 1)) [65 + n]))\<rparr>"
  let ?r1 = "sub_element r (problem_element (str_int (int n + 1)) [65 + n])"
  have step: "add_problem (n, p) s = (Inr (), ?s1)"
    by (rule add_problem_step [OF Cons.prems(1) Cons.hyps(1) n])
  have root1: "contest_root ?s1 = Some ?r1"
    by simp
  have "for_each add_problem (enumerate n (p # ps)) s =
          for_each add_problem (enumerate (Suc n) ps) ?s1"
    by (simp add: bnd_def step)
  also note Cons.IH [OF root1 rest]
  also have "[n..<n + length (p # ps)] = n # [Suc n..<Suc n + length ps]"
    by (subst upt_conv_Cons) simp_all
  then have "?s1\<lparr>label_map := fold (\<lambda>(i, k). AList.update k (problem_label i)) (enumerate (Suc n) keys) (label_map ?s1),
        contest_root := Some (Elem (etag ?r1) (etext ?r1) (etail ?r1)
          (kids ?r1 @ map (\<lambda>i. problem_element (str_int (int i + 1)) [65 + i]) [Suc n..<Suc n + length ps]))\<rparr>
      = s\<lparr>label_map := fold (\<lambda>(i, k). AList.update k (problem_label i)) (enumerate n (k # keys)) (label_map s),
        contest_root := Some (Elem (etag r) (etext r) (etail r)
          (kids r @ map (\<lambda>i. problem_element (str_int (int i + 1)) [65 + i]) [n..<n + length (p # ps)]))\<rparr>"
    by (simp add: sub_element_def problem_label_def del: upt_Suc)
  finally show ?case .
qed


lemma enumerate_labels:
  "map (\<lambda>(i, k). (k, problem_label i)) (enumerate 0 keys) = zip keys (map problem_label [0..<length keys])"
  by (rule nth_equalityI) (simp_all add: nth_enumerate_eq)

lemma label_map_distinct:
  assumes "distinct keys" and "i < length keys"
  shows "map_of (fold (\<lambda>(i, k). AList.update k (problem_label i)) (enumerate 0 keys) al) (keys ! i)
           = Some (problem_label i)"
proof -
  have "fold (\<lambda>(i, k). AList.update k (problem_label i)) (enumerate 0 keys) al
      = fold (\<lambda>(k, v). AList.update k v) (map (\<lambda>(i, k). (k, problem_label i)) (enumerate 0 keys)) al"
    by (simp add: fold_map comp_def case_prod_unfold)
  moreover have "map_of (rev (zip keys (map problem_label [0..<length keys]))) (keys ! i)
      = Some (problem_label i)"
  proof (rule map_of_is_SomeI)
    show "distinct (map fst (rev (zip keys (map problem_label [0..<length keys]))))"
      using assms(1) by (simp add: rev_map [symmetric] map_fst_zip)
    have "(keys ! i, problem_label i) \<in> set (zip keys (map problem_label [0..<length keys]))"
      unfolding set_zip using assms(2) by (intro CollectI exI [of _ i]) simp
    then show "(keys ! i, problem_label i) \<in> set (rev (zip keys (map problem_label [0..<length keys])))"
      by simp
  qed
  ultimately show ?thesis
    by (simp add: map_of_fold_update enumerate_labels map_add_def)
qed


lemma process_problems_result:
  assumes root: "contest_root s = Some r"
    and resp: "A (length (requests s))
                 (api_base @ py_str E (selected_problem_set_id s) @ lit ''/preview/problems'',
                  Some [(lit ''problem_type'', JStr (lit ''PROGRAMMING'')),
                        (lit ''page'', JInt 0), (lit ''limit'', JInt 500)]) = Inr resp"
    and ok: "status_code resp = 200" "is_json_type resp" "body_json resp = Inr data"
    and listing: "dict_get data (lit ''problemSetProblems'') (JArr []) = Inr (JArr ps)"
    and keys: "list_all2 (\<lambda>p k. rbind (dict_get p (lit ''id'') JNull) py_key = Inr k) ps keys"
    and len: "length ps \<le> 1114047"
  shows "process_problems E A s =
     (Inr (),
      s\<lparr>requests := requests s @
          [(api_base @ py_str E (selected_problem_set_id s) @ lit ''/preview/problems'',
            Some [(lit ''problem_type'', JStr (lit ''PROGRAMMING'')),
                  (lit ''page'', JInt 0), (lit ''limit'', JInt 500)])],
        label_map := fold (\<lambda>(i, k). AList.update k (problem_label i)) (enumerate 0 keys) (label_map s),
        contest_root := Some (Elem (etag r) (etext r) (etail r)
          (kids r @ map (\<lambda>i. problem_element (str_int (int i + 1)) [65 + i]) [0..<length ps]))\<rparr>)"
proof -
  let ?s1 = "s\<lparr>requests := requests s @
          [(api_base @ py_str E (selected_problem_set_id s) @ lit ''/preview/problems'',
            Some [(lit ''problem_type'', JStr (lit ''PROGRAMMING'')),
                  (lit ''page'', JInt 0), (lit ''limit'', JInt 500)])]\<rparr>"
  have root1: "contest_root ?s1 = Some r"
    by (simp add: root)
  have "process_problems E A s = for_each add_problem (enumerate 0 ps) ?s1"
    unfolding process_problems_def
    apply (subst bnd_gets)
    apply (subst bnd_safe_request_ok [where resp = resp and j = data])
    using resp ok apply simp_all[4]
    apply (simp add: listing)
    done
  also from len have "0 + length ps \<le> 1114047"
    by simp
  note for_each_add_problem [OF keys root1 this]
  finally show ?thesis
    by simp
qed

text \<open>
  What \<^verbatim>\<open>_process_problems\<close> does with a listing of \<open>N\<close> problems (objects with hashable
  ids, \<open>N\<close> within the range of \<^verbatim>\<open>chr\<close>): it appends \<open>N\<close> problem elements in the order of
  the listing; the element at position \<open>i\<close> (from 0) has the id \<^verbatim>\<open>str(i + 1)\<close>, the letter
  \<^verbatim>\<open>chr(65 + i)\<close> and the name \<^verbatim>\<open>Problem\<close> followed by that letter, and with distinct ids
  the lookup maps the problem's id to that id and letter. For the first twenty-six
  positions \<^verbatim>\<open>chr(65 + i)\<close> is the uppercase letter of that position.
\<close>

lemma problem_numbering:
  assumes root: "contest_root s = Some r"
    and resp: "A (length (requests s))
                 (api_base @ py_str E (selected_problem_set_id s) @ lit ''/preview/problems'',
                  Some [(lit ''problem_type'', JStr (lit ''PROGRAMMING'')),
                        (lit ''page'', JInt 0), (lit ''limit'', JInt 500)]) = Inr resp"
    and ok: "status_code resp = 200" "is_json_type resp" "body_json resp = Inr data"
    and listing: "dict_get data (lit ''problemSetProblems'') (JArr []) = Inr (JArr ps)"
    and keys: "list_all2 (\<lambda>p k. rbind (dict_get p (lit ''id'') JNull) py_key = Inr k) ps keys"
    and len: "length ps \<le> 1114047"
  shows "\<exists>s' nodes. process_problems E A s = (Inr (), s')
          \<and> contest_root s' = Some (Elem (etag r) (etext r) (etail r) (kids r @ nodes))
          \<and> length nodes = length ps
          \<and> (\<forall>i < length ps.
                etag (nodes ! i) = lit ''problem''
              \<and> child_text ''id'' (nodes ! i) = Some (JStr (str_int (int i + 1)))
              \<and> child_text ''letter'' (nodes ! i) = Some (JStr [65 + i])
              \<and> child_text ''name'' (nodes ! i) = Some (JStr (lit ''Problem '' @ [65 + i]))
              \<and> (i < 26 \<longrightarrow> 65 + i = uppercase ! i)
              \<and> (distinct keys \<longrightarrow>
                   map_of (label_map s') (keys ! i)
                     = Some \<lparr>xml_id = str_int (int i + 1), letter = [65 + i]\<rparr>))"
proof -
  let ?nodes = "map (\<lambda>i. problem_element (str_int (int i + 1)) [65 + i]) [0..<length ps]"
  let ?s' = "s\<lparr>requests := requests s @
          [(api_base @ py_str E (selected_problem_set_id s) @ lit ''/preview/problems'',
            Some [(lit ''problem_type'', JStr (lit ''PROGRAMMING'')),
                  (lit ''page'', JInt 0), (lit ''limit'', JInt 500)])],
        label_map := fold (\<lambda>(i, k). AList.update k (problem_label i)) (enumerate 0 keys) (label_map s),
        contest_root := Some (Elem (etag r) (etext r) (etail r) (kids r @ ?nodes))\<rparr>"
  have run: "process_problems E A s = (Inr (), ?s')"
    by (rule process_problems_result [where A = A, OF root resp ok listing keys len])
  have root': "contest_root ?s' = Some (Elem (etag r) (etext r) (etail r) (kids r @ ?nodes))"
    by simp
  have n: "length ?nodes = length ps"
    by simp
  have each: "etag (?nodes ! i) = lit ''problem''
              \<and> child_text ''id'' (?nodes ! i) = Some (JStr (str_int (int i + 1)))
              \<and> child_text ''letter'' (?nodes ! i) = Some (JStr [65 + i])
              \<and> child_text ''name'' (?nodes ! i) = Some (JStr (lit ''Problem '' @ [65 + i]))
              \<and> (i < 26 \<longrightarrow> 65 + i = uppercase ! i)
              \<and> (distinct keys \<longrightarrow>
                   map_of (label_map ?s') (keys ! i)
                     = Some \<lparr>xml_id = str_int (int i + 1), letter = [65 + i]\<rparr>)"
    if i: "i < length ps" for i
  proof -
    from keys have "length keys = length ps"
      by (simp add: list_all2_lengthD)
    with i have "distinct keys \<longrightarrow> map_of (label_map ?s') (keys ! i) = Some (problem_label i)"
      by (simp add: label_map_distinct)
    with i show ?thesis
      by (simp add: problem_element_def child_text_def leaf_def uppercase_nth problem_label_def
          del: upt_Suc)
  qed
  from run root' n each show ?thesis
    by blast
qed


lemma problem_numbering_example:
  "\<exists>s' nodes. process_problems sample_env sample_api prepared_state = (Inr (), s')
      \<and> contest_root s' = Some (Elem (lit ''contest'') JNull JNull nodes)
      \<and> length nodes = 2
      \<and> child_text ''id'' (nodes ! 1) = Some (JStr (lit ''2''))
      \<and> child_text ''letter'' (nodes ! 1) = Some (JStr (lit ''B''))
      \<and> child_text ''name'' (nodes ! 1) = Some (JStr (lit ''Problem B''))
      \<and> map_of (label_map s') (JStr (lit ''p2'')) = Some \<lparr>xml_id = lit ''2'', letter = lit ''B''\<rparr>"
proof -
  have root: "contest_root prepared_state = Some (Elem (lit ''contest'') JNull JNull [])"
    by (simp add: prepared_state_def)
  have resp: "sample_api (length (requests prepared_state))
        (api_base @ py_str sample_env (selected_problem_set_id prepared_state) @ lit ''/preview/problems'',
         Some [(lit ''problem_type'', JStr (lit ''PROGRAMMING'')),
               (lit ''page'', JInt 0), (lit ''limit'', JInt 500)])
      = Inr (json_response sample_problems)"
    by (simp add: sample_api_def prepared_state_def sample_state_def lit_def api_base_def)
  have listing: "dict_get sample_problems (lit ''problemSetProblems'') (JArr []) =
      Inr (JArr [JObj [(lit ''id'', JStr (lit ''p1''))], JObj [(lit ''id'', JStr (lit ''p2''))]])"
    by (simp add: sample_problems_def)
  have keys: "list_all2 (\<lambda>p k. rbind (dict_get p (lit ''id'') JNull) py_key = Inr k)
      [JObj [(lit ''id'', JStr (lit ''p1''))], JObj [(lit ''id'', JStr (lit ''p2''))]]
      [JStr (lit ''p1''), JStr (lit ''p2'')]"
    by (simp add: rbind_def)
  have texts: "str_int 2 = lit ''2''" "[65 + 1] = lit ''B''" "lit ''Problem '' @ [65 + 1] = lit ''Problem B''"
    by (simp_all add: str_int_def digits.simps lit_def)
  from problem_numbering [where A = sample_api and E = sample_env, OF root resp _ _ _ listing keys]
  obtain s' nodes where
    "process_problems sample_env sample_api prepared_state = (Inr (), s')"
    "contest_root s' = Some (Elem (lit ''contest'') JNull JNull nodes)"
    "length nodes = 2" and
    each: "\<forall>i<2. etag (nodes ! i) = lit ''problem''
              \<and> child_text ''id'' (nodes ! i) = Some (JStr (str_int (int i + 1)))
              \<and> child_text ''letter'' (nodes ! i) = Some (JStr [65 + i])
              \<and> child_text ''name'' (nodes ! i) = Some (JStr (lit ''Problem '' @ [65 + i]))
              \<and> (i < 26 \<longrightarrow> 65 + i = uppercase ! i)
              \<and> (distinct [JStr (lit ''p1''), JStr (lit ''p2'')] \<longrightarrow>
                   map_of (label_map s') ([JStr (lit ''p1''), JStr (lit ''p2'')] ! i)
                     = Some \<lparr>xml_id = str_int (int i + 1), letter = [65 + i]\<rparr>)"
    by auto
  moreover from each [rule_format, of 1] have "child_text ''id'' (nodes ! 1) = Some (JStr (lit ''2''))
      \<and> child_text ''letter'' (nodes ! 1) = Some (JStr (lit ''B''))
      \<and> child_text ''name'' (nodes ! 1) = Some (JStr (lit ''Problem B''))
      \<and> map_of (label_map s') (JStr (lit ''p2'')) = Some \<lparr>xml_id = lit ''2'', letter = lit ''B''\<rparr>"
    using texts by simp
  ultimately show ?thesis
    by blast
qed

text \<open>
  Claim C6. The claim gives the \<open>i\<close>-th problem the \<open>i\<close>-th uppercase letter, and that is
  what line 310 sets out to do (\<^verbatim>\<open>letter = chr(65 + idx)  # A, B, C...\<close>). The request of
  line 302 asks for up to 500 problems, and nothing keeps \<^verbatim>\<open>65 + idx\<close> within the letters:
  for a listing of twenty-seven problems the last one gets \<^verbatim>\<open>chr(91)\<close>, the opening square
  bracket, as its letter, which is no uppercase letter.
\<close>

theorem twenty_seventh_problem_letter:
  "fst (process_problems sample_env many_api prepared_state) = Inr ()
   \<and> map_option (length \<circ> kids) (contest_root (snd (process_problems sample_env many_api prepared_state)))
       = Some 27
   \<and> map_option (child_text ''letter'' \<circ> last \<circ> kids)
       (contest_root (snd (process_problems sample_env many_api prepared_state)))
       = Some (Some (JStr (lit ''[''))) 
   \<and> lit ''['' ! 0 \<notin> set uppercase"
proof -
  have root: "contest_root prepared_state = Some (Elem (lit ''contest'') JNull JNull [])"
    by (simp add: prepared_state_def)
  have resp: "many_api (length (requests prepared_state))
        (api_base @ py_str sample_env (selected_problem_set_id prepared_state) @ lit ''/preview/problems'',
         Some [(lit ''problem_type'', JStr (lit ''PROGRAMMING'')),
               (lit ''page'', JInt 0), (lit ''limit'', JInt 500)])
      = Inr (json_response (JObj [(lit ''problemSetProblems'', JArr many_problems)]))"
    by (simp add: many_api_def)
  have listing: "dict_get (JObj [(lit ''problemSetProblems'', JArr many_problems)])
      (lit ''problemSetProblems'') (JArr []) = Inr (JArr many_problems)"
    by simp
  have keys: "list_all2 (\<lambda>p k. rbind (dict_get p (lit ''id'') JNull) py_key = Inr k)
      many_problems (map (\<lambda>i. JInt (int i)) [0..<27])"
    by (simp add: many_problems_def list_all2_conv_all_nth rbind_def del: upt_Suc)
  have len: "length many_problems = 27"
    by (simp add: many_problems_def)
  have last: "last (map (\<lambda>i. problem_element (str_int (int i + 1)) [65 + i]) [0..<27])
      = problem_element (str_int 27) [91]"
    by (simp add: last_map del: upt_Suc)
  from process_problems_result [where A = many_api and E = sample_env, OF root resp _ _ _ listing keys]
  have "fst (process_problems sample_env many_api prepared_state) = Inr ()
   \<and> map_option (length \<circ> kids) (contest_root (snd (process_problems sample_env many_api prepared_state)))
       = Some 27
   \<and> map_option (child_text ''letter'' \<circ> last \<circ> kids)
       (contest_root (snd (process_problems sample_env many_api prepared_state)))
       = Some (child_text ''letter'' (problem_element (str_int 27) [91]))"
    by (simp add: len last del: upt_Suc)
  then show ?thesis
    by (simp add: problem_element_def child_text_def leaf_def lit_def uppercase_def)
qed


section \<open>Paging through the submissions\<close>





lemma lit_eq_Nil [simp]: "lit a = [] \<longleftrightarrow> a = []" "[] = lit a \<longleftrightarrow> a = []"
  by (auto simp: lit_def)

lemma py_eq_JStr [simp]: "py_eq (JStr a) (JStr b) \<longleftrightarrow> a = b"
  "py_eq (JStr a) JNull = False"
  by (simp_all add: py_eq_def)












section \<open>The log of requests\<close>

text \<open>No method takes a request back: each one only adds to the log.\<close>

named_theorems grows_intros

lemma grows_ret [grows_intros]: "grows (ret x)"
  by (simp add: grows_def ret_def)

lemma grows_raise [grows_intros]: "grows (raise e)"
  by (simp add: grows_def raise_def)

lemma grows_lift [grows_intros]: "grows (lift r)"
  by (simp add: grows_def lift_def)

lemma grows_gets [grows_intros]: "grows (gets f)"
  by (simp add: grows_def gets_def)

lemma grows_modify: "(\<And>s. requests (f s) = requests s) \<Longrightarrow> grows (modify f)"
  by (simp add: grows_def modify_def)

lemma grows_bnd [grows_intros]:
  assumes "grows m" and "\<And>x. grows (f x)"
  shows "grows (bnd m f)"
  unfolding grows_def
proof (intro allI impI)
  fix s r s'
  assume run: "bnd m f s = (r, s')"
  obtain r1 s1 where m: "m s = (r1, s1)"
    by (cases "m s")
  with assms(1) have p1: "prefix (requests s) (requests s1)"
    by (simp add: grows_def)
  show "prefix (requests s) (requests s')"
  proof (cases r1)
    case (Inl e)
    with run m p1 show ?thesis
      by (simp add: bnd_def)
  next
    case (Inr x)
    with run m have "f x s1 = (r, s')"
      by (simp add: bnd_def)
    with assms(2) [of x] have "prefix (requests s1) (requests s')"
      by (simp add: grows_def)
    with p1 show ?thesis
      by (rule prefix_order.trans)
  qed
qed

lemma grows_for_each [grows_intros]:
  "(\<And>x. grows (f x)) \<Longrightarrow> grows (for_each f xs)"
  by (induction xs) (simp_all add: grows_intros)

lemma safe_request_requests:
  "safe_request A url params s = (r, s') \<Longrightarrow> requests s' = requests s @ [(url, params)]"
  by (auto simp: safe_request_def Let_def split: sum.splits if_splits)

lemma grows_safe_request [grows_intros]: "grows (safe_request A url params)"
  by (auto simp: grows_def dest: safe_request_requests)

lemma grows_sub_element_root [grows_intros]: "grows (sub_element_root c)"
  by (auto simp: grows_def sub_element_root_def split: option.splits)

lemma grows_extend_last [grows_intros]: "grows (extend_last cs)"
  by (auto simp: grows_def extend_last_def split: option.splits if_splits)

lemma grows_if [grows_intros]: "grows a \<Longrightarrow> grows b \<Longrightarrow> grows (if c then a else b)"
  by simp

lemma grows_case_option [grows_intros]:
  "grows a \<Longrightarrow> (\<And>y. grows (b y)) \<Longrightarrow> grows (case x of None \<Rightarrow> a | Some y \<Rightarrow> b y)"
  by (cases x) simp_all

lemma grows_case_prod [grows_intros]:
  "(\<And>a b. grows (f a b)) \<Longrightarrow> grows (case x of (a, b) \<Rightarrow> f a b)"
  by (cases x) simp

lemma grows_init_xml_structure [grows_intros]: "grows init_xml_structure"
  by (simp add: init_xml_structure_def grows_modify)

lemma grows_add_static_nodes [grows_intros]: "grows add_static_nodes"
  unfolding add_static_nodes_def by (intro grows_intros)

lemma grows_add_problem [grows_intros]: "grows (add_problem x)"
  unfolding add_problem_def Let_def by (intro grows_intros grows_modify) simp

lemma grows_process_problems [grows_intros]: "grows (process_problems E A)"
  unfolding process_problems_def by (intro grows_intros)

lemma grows_add_submission_node [grows_intros]: "grows (add_submission_node E sub c)"
  unfolding add_submission_node_def Let_def by (intro grows_intros)

lemma grows_page_loop [grows_intros]: "grows (page_loop E subs c)"
  by (induction subs arbitrary: c) (simp_all add: grows_intros)

lemma grows_submissions_page [grows_intros]: "grows (submissions_page E A u b c)"
  unfolding submissions_page_def by (intro grows_intros)

lemma grows_get_team_name [grows_intros]: "grows (get_team_name E u v)"
  unfolding get_team_name_def by (intro grows_intros)

lemma grows_add_team_node [grows_intros]: "grows (add_team_node E m)"
  unfolding add_team_node_def by (intro grows_intros)

lemma grows_update_maps [grows_intros]:
  "grows (update_exam_by_user_id E v)" "grows (update_student_user_by_id E v)"
  by (simp_all add: grows_def update_exam_by_user_id_def update_student_user_by_id_def)

lemma grows_teams_page [grows_intros]: "grows (teams_page E A u p)"
  unfolding teams_page_def by (intro grows_intros)

lemma grows_add_finalized_node [grows_intros]: "grows (add_finalized_node E now)"
  unfolding add_finalized_node_def by (intro grows_intros)

lemma grows_save_xml [grows_intros]: "grows (save_xml E path)"
  by (auto simp: grows_def save_xml_def split: option.splits prod.splits)


lemma growsD: "grows m \<Longrightarrow> m s = (r, s') \<Longrightarrow> prefix (requests s) (requests s')"
  by (simp add: grows_def)

lemma submissions_loop_grows:
  assumes "submissions_loop E A u b c s = Some y"
  shows "prefix (requests s) (requests (snd y))"
proof (rule submissions_loop.raw_induct
    [where P = "\<lambda>E A u b c s y. prefix (requests s) (requests (snd y))", OF _ assms])
  fix loop E A u b c s y
  assume IH: "\<And>E A u b c s y. loop E A u b c s = Some y \<Longrightarrow> prefix (requests s) (requests (snd y))"
    and run: "(case submissions_page E A u b c s of
        (Inl e, s') \<Rightarrow> Some (Inl e, s')
      | (Inr None, s') \<Rightarrow> Some (Inr (), s')
      | (Inr (Some (before', counter')), s') \<Rightarrow> loop E A u before' counter' s') = Some y"
  obtain r1 s1 where page: "submissions_page E A u b c s = (r1, s1)"
    by (cases "submissions_page E A u b c s")
  from growsD [OF grows_submissions_page page] have p1: "prefix (requests s) (requests s1)" .
  show "prefix (requests s) (requests (snd y))"
  proof (cases r1)
    case (Inl e)
    with run page p1 show ?thesis by auto
  next
    case (Inr go)
    show ?thesis
    proof (cases go)
      case None
      with run page p1 Inr show ?thesis by auto
    next
      case (Some bc)
      with run page Inr have "loop E A u (fst bc) (snd bc) s1 = Some y"
        by (cases bc) simp
      from IH [OF this] p1 show ?thesis
        by (rule prefix_order.trans [rotated])
    qed
  qed
qed

lemma teams_loop_grows:
  assumes "teams_loop E A u p s = Some y"
  shows "prefix (requests s) (requests (snd y))"
proof (rule teams_loop.raw_induct
    [where P = "\<lambda>E A u p s y. prefix (requests s) (requests (snd y))", OF _ assms])
  fix loop E A u p s y
  assume IH: "\<And>E A u p s y. loop E A u p s = Some y \<Longrightarrow> prefix (requests s) (requests (snd y))"
    and run: "(case teams_page E A u p s of
        (Inl e, s') \<Rightarrow> Some (Inl e, s')
      | (Inr next_page, s') \<Rightarrow>
          if next_page then loop E A u (p + 1) s' else Some (Inr (), s')) = Some y"
  obtain r1 s1 where page: "teams_page E A u p s = (r1, s1)"
    by (cases "teams_page E A u p s")
  from growsD [OF grows_teams_page page] have p1: "prefix (requests s) (requests s1)" .
  show "prefix (requests s) (requests (snd y))"
  proof (cases r1)
    case (Inl e)
    with run page p1 show ?thesis by auto
  next
    case (Inr go)
    show ?thesis
    proof (cases go)
      case False
      with run page p1 Inr show ?thesis by auto
    next
      case True
      with run page Inr have "loop E A u (p + 1) s1 = Some y"
        by simp
      from IH [OF this] p1 show ?thesis
        by (rule prefix_order.trans [rotated])
    qed
  qed
qed

lemma pgrows_total: "grows m \<Longrightarrow> pgrows (total m)"
  by (simp add: grows_def pgrows_def total_def)

lemma pgrows_bndp:
  assumes "pgrows m" and "\<And>x. pgrows (f x)"
  shows "pgrows (bndp m f)"
  unfolding pgrows_def
proof (intro allI impI)
  fix s r s'
  assume run: "bndp m f s = Some (r, s')"
  then obtain r1 s1 where m: "m s = Some (r1, s1)"
    by (cases "m s") (auto simp: bndp_def)
  with assms(1) have p1: "prefix (requests s) (requests s1)"
    by (simp add: pgrows_def)
  show "prefix (requests s) (requests s')"
  proof (cases r1)
    case (Inl e)
    with run m p1 show ?thesis
      by (simp add: bndp_def)
  next
    case (Inr x)
    with run m have "f x s1 = Some (r, s')"
      by (simp add: bndp_def)
    with assms(2) [of x] have "prefix (requests s1) (requests s')"
      by (simp add: pgrows_def)
    with p1 show ?thesis
      by (rule prefix_order.trans)
  qed
qed

lemma pgrows_process_submissions: "pgrows (process_submissions E A)"
  by (auto simp: pgrows_def process_submissions_def dest: submissions_loop_grows)

lemma pgrows_process_teams: "pgrows (process_teams E A)"
  by (auto simp: pgrows_def process_teams_def dest!: teams_loop_grows)

lemma process_exam_info_requests:
  assumes "process_exam_info E A s = (r, s')"
  shows "requests s' = requests s @ [(api_base @ py_str E (selected_problem_set_id s), None)]"
proof -
  let ?url = "api_base @ py_str E (selected_problem_set_id s)"
  obtain r1 s1 where req: "safe_request A ?url None s = (r1, s1)"
    by (cases "safe_request A ?url None s")
  note s1 = safe_request_requests [OF req]
  show ?thesis
  proof (cases r1)
    case (Inl e)
    with assms req s1 show ?thesis
      by (simp add: process_exam_info_def bnd_def [of "safe_request A ?url None"])
  next
    case (Inr data)
    with assms req have rest: "bnd (modify (\<lambda>s. s\<lparr>exam_info := data\<rparr>)) (\<lambda>_.
     bnd (sub_element_root (Elem (lit ''info'') JNull JNull [])) (\<lambda>_.
     bnd (lift (dict_get data (lit ''problemSet'') (JObj []))) (\<lambda>problem_set.
     bnd (lift (dict_get problem_set (lit ''startAt'') (JStr (lit ''1970-01-01T00:00:00Z'')))) (\<lambda>start_at_str.
     bnd (lift (dict_get problem_set (lit ''endAt'') (JStr (lit ''1970-01-01T00:00:00Z'')))) (\<lambda>end_at_str.
     bnd (lift (parse_time E start_at_str)) (\<lambda>start_dt.
     bnd (lift (parse_time E end_at_str)) (\<lambda>end_dt.
     bnd (lift (astimezone_utc E start_dt)) (\<lambda>start.
     bnd (modify (\<lambda>s. s\<lparr>contest_start_dt := Some start\<rparr>)) (\<lambda>_.
     bnd (lift (dict_get problem_set (lit ''duration'') (JInt 0))) (\<lambda>duration.
     bnd (lift (duration_sec duration start_dt end_dt)) (\<lambda>d.
     bnd (lift (dict_get problem_set (lit ''name'') (JStr (lit ''PTA Contest'')))) (\<lambda>name.
     bnd (lift (dict_get problem_set (lit ''id'') (JStr (lit ''0'')))) (\<lambda>cid.
     extend_last (info_children E name cid start d)))))))))))))) s1 = (r, s')"
      by (simp add: process_exam_info_def bnd_def [of "safe_request A ?url None"])
    have "requests s' = requests s1"
      using rest
      by (auto simp: bnd_def modify_def lift_def sub_element_root_def extend_last_def
          split: sum.splits option.splits prod.splits if_splits)
    with s1 show ?thesis
      by simp
  qed
qed


lemma safe_request_selected:
  "safe_request A url params s = (r, s') \<Longrightarrow>
     selected_problem_set_id s' = selected_problem_set_id s"
  by (auto simp: safe_request_def Let_def split: sum.splits if_splits)

lemma generate_requests:
  assumes sel: "truthy (selected_problem_set_id s)"
    and run: "generate_contest_xml E A now path s = Some (r, s'')"
  shows "prefix (requests s @ [(api_base @ py_str E (selected_problem_set_id s), None)])
           (requests s'')"
proof -
  let ?s0 = "s\<lparr>contest_root := Some (Elem (lit ''contest'') JNull JNull [])\<rparr>"
  let ?rest = "\<lambda>_::unit. bndp (total add_static_nodes) (\<lambda>_.
       bndp (total (process_problems E A)) (\<lambda>_.
       bndp (process_teams E A) (\<lambda>_.
       bndp (process_submissions E A) (\<lambda>_.
       bndp (total (add_finalized_node E now)) (\<lambda>_.
       bndp (total (save_xml E path)) (\<lambda>_.
       total (ret path)))))))"
  obtain r1 s1 where info: "process_exam_info E A ?s0 = (r1, s1)"
    by (cases "process_exam_info E A ?s0")
  from process_exam_info_requests [OF info]
  have s1: "requests s1 = requests s @ [(api_base @ py_str E (selected_problem_set_id s), None)]"
    by simp
  from sel run info have cont: "(case r1 of Inl e \<Rightarrow> Some (Inl e, s1) | Inr x \<Rightarrow> ?rest x s1) = Some (r, s'')"
    by (simp add: generate_contest_xml_def bndp_def total_def init_xml_structure_def modify_def
        split: sum.splits)
  show ?thesis
  proof (cases r1)
    case (Inl e)
    with cont s1 show ?thesis
      by auto
  next
    case (Inr x)
    with cont have "?rest x s1 = Some (r, s'')"
      by simp
    moreover have "pgrows (?rest x)"
      by (intro pgrows_bndp pgrows_total grows_intros pgrows_process_teams
          pgrows_process_submissions)
    ultimately have "prefix (requests s1) (requests s'')"
      by (simp add: pgrows_def)
    with s1 show ?thesis
      by simp
  qed
qed

lemma bndp_total:
  "bndp (total m) f s = (case m s of (Inl e, s') \<Rightarrow> Some (Inl e, s') | (Inr x, s') \<Rightarrow> f x s')"
  by (simp add: bndp_def total_def split: prod.splits sum.splits)

text \<open>
  Claim C10. \<^verbatim>\<open>select_problem_set\<close> stores the id before it sends the probe, so when the
  probe fails the id stays selected (and the probe is in the log). If that id is a true
  value (not \<^verbatim>\<open>None\<close>, not empty), a later call of the generation entry point passes the
  check for a selection and goes on: \<^verbatim>\<open>_process_exam_info\<close>, which always returns, sends the
  request for the details of the problem set with that id, and the call is what remains
  of the run after it: the exception of that step if it raised one, the other steps
  otherwise. The call never ends with the usage error in the state it found, and whatever
  run of it returns has that request in its log.
\<close>

theorem selection_survives_failed_probe:
  assumes "select_problem_set E A problem_set_id s = (Inl e, s')"
  shows "selected_problem_set_id s' = problem_set_id
       \<and> requests s' = requests s @ [(api_base @ py_str E problem_set_id @ lit ''/exams'', None)]
       \<and> (truthy problem_set_id \<longrightarrow>
            (\<exists>r1 s1.
               process_exam_info E A'
                 (s'\<lparr>contest_root := Some (Elem (lit ''contest'') JNull JNull [])\<rparr>) = (r1, s1)
             \<and> requests s1 = requests s' @ [(api_base @ py_str E problem_set_id, None)]
             \<and> generate_contest_xml E A' now path s' =
                 (case r1 of
                    Inl e1 \<Rightarrow> Some (Inl e1, s1)
                  | Inr u \<Rightarrow>
                      bndp (total add_static_nodes) (\<lambda>_.
                      bndp (total (process_problems E A')) (\<lambda>_.
                      bndp (process_teams E A') (\<lambda>_.
                      bndp (process_submissions E A') (\<lambda>_.
                      bndp (total (add_finalized_node E now)) (\<lambda>_.
                      bndp (total (save_xml E path)) (\<lambda>_.
                      total (ret path))))))) s1))
          \<and> generate_contest_xml E A' now path s' \<noteq> Some (Inl (ValueError msg_select_first), s')
          \<and> (\<forall>r s''. generate_contest_xml E A' now path s' = Some (r, s'') \<longrightarrow>
               prefix (requests s' @ [(api_base @ py_str E problem_set_id, None)])
                 (requests s'')))"
proof -
  from assms have sel: "selected_problem_set_id s' = problem_set_id"
    by (auto simp: select_problem_set_def bnd_def ret_def modify_def split: sum.splits prod.splits
        dest: safe_request_selected)
  from assms have log: "requests s' = requests s @ [(api_base @ py_str E problem_set_id @ lit ''/exams'', None)]"
    by (auto simp: select_problem_set_def bnd_def ret_def modify_def split: sum.splits prod.splits
        dest: safe_request_requests)
  let ?s0 = "s'\<lparr>contest_root := Some (Elem (lit ''contest'') JNull JNull [])\<rparr>"
  obtain r1 s1 where info: "process_exam_info E A' ?s0 = (r1, s1)"
    by (cases "process_exam_info E A' ?s0")
  from process_exam_info_requests [OF info] sel
  have s1: "requests s1 = requests s' @ [(api_base @ py_str E problem_set_id, None)]"
    by simp
  have run: "generate_contest_xml E A' now path s' =
                 (case r1 of
                    Inl e1 \<Rightarrow> Some (Inl e1, s1)
                  | Inr u \<Rightarrow>
                      bndp (total add_static_nodes) (\<lambda>_.
                      bndp (total (process_problems E A')) (\<lambda>_.
                      bndp (process_teams E A') (\<lambda>_.
                      bndp (process_submissions E A') (\<lambda>_.
                      bndp (total (add_finalized_node E now)) (\<lambda>_.
                      bndp (total (save_xml E path)) (\<lambda>_.
                      total (ret path))))))) s1)"
    if "truthy problem_set_id"
  proof -
    have init: "init_xml_structure s' = (Inr (), ?s0)"
      by (simp add: init_xml_structure_def modify_def)
    from that sel show ?thesis
      by (simp add: generate_contest_xml_def bndp_total [of init_xml_structure]
          bndp_total [of "process_exam_info E A'"] init info split: sum.splits)
  qed
  have later: "prefix (requests s' @ [(api_base @ py_str E problem_set_id, None)]) (requests s'')"
    if "truthy problem_set_id" "generate_contest_xml E A' now path s' = Some (r, s'')" for r s''
    using generate_requests [of s' E A' now path r s''] that sel by simp
  have "generate_contest_xml E A' now path s' \<noteq> Some (Inl (ValueError msg_select_first), s')"
    if "truthy problem_set_id"
  proof
    assume "generate_contest_xml E A' now path s' = Some (Inl (ValueError msg_select_first), s')"
    from later [OF that this] show False
      by simp
  qed
  with sel log info s1 run later show ?thesis
    by blast
qed

theorem selection_survives_failed_probe_witness:
  "select_problem_set sample_env login_api (JStr (lit ''42'')) (init (lit ''HBUE'') (lit ''1''))
     = (Inl (PTAAuthError msg_auth),
        (init (lit ''HBUE'') (lit ''1''))
          \<lparr>selected_problem_set_id := JStr (lit ''42''),
           requests := [(api_base @ lit ''42'' @ lit ''/exams'', None)],
           error_dump := Some (lit ''<html>login</html>'')\<rparr>)
   \<and> truthy (JStr (lit ''42''))
   \<and> generate_contest_xml sample_env login_api (lit ''0.0'') (lit ''contest.xml'')
        ((init (lit ''HBUE'') (lit ''1''))
          \<lparr>selected_problem_set_id := JStr (lit ''42''),
           requests := [(api_base @ lit ''42'' @ lit ''/exams'', None)],
           error_dump := Some (lit ''<html>login</html>'')\<rparr>)
      = Some (Inl (PTAAuthError msg_auth),
           (init (lit ''HBUE'') (lit ''1''))
          \<lparr>selected_problem_set_id := JStr (lit ''42''),
           contest_root := Some (Elem (lit ''contest'') JNull JNull []),
           requests := [(api_base @ lit ''42'' @ lit ''/exams'', None), (api_base @ lit ''42'', None)],
           error_dump := Some (lit ''<html>login</html>'')\<rparr>)"
proof -
  let ?s' = "(init (lit ''HBUE'') (lit ''1''))
          \<lparr>selected_problem_set_id := JStr (lit ''42''),
           requests := [(api_base @ lit ''42'' @ lit ''/exams'', None)],
           error_dump := Some (lit ''<html>login</html>'')\<rparr>"
  have probe: "select_problem_set sample_env login_api (JStr (lit ''42'')) (init (lit ''HBUE'') (lit ''1''))
     = (Inl (PTAAuthError msg_auth), ?s')"
    by (simp add: select_problem_set_def bnd_def modify_def safe_request_def login_api_def
        html_response_def Let_def init_def lit_def)
  have t: "truthy (JStr (lit ''42''))"
    by simp
  have info: "process_exam_info sample_env login_api
       (?s'\<lparr>contest_root := Some (Elem (lit ''contest'') JNull JNull [])\<rparr>) =
     (Inl (PTAAuthError msg_auth),
      (init (lit ''HBUE'') (lit ''1''))
          \<lparr>selected_problem_set_id := JStr (lit ''42''),
           contest_root := Some (Elem (lit ''contest'') JNull JNull []),
           requests := [(api_base @ lit ''42'' @ lit ''/exams'', None), (api_base @ lit ''42'', None)],
           error_dump := Some (lit ''<html>login</html>'')\<rparr>)"
    by (simp add: process_exam_info_def bnd_def safe_request_def login_api_def
        html_response_def Let_def init_def lit_def gets_def)
  from selection_survives_failed_probe [OF probe, of login_api "lit ''0.0''" "lit ''contest.xml''"]
    probe t info
  show ?thesis
    by simp
qed


section \<open>Two runs on the same answers\<close>

text \<open>
  The clock is read once, for the text of the \<^verbatim>\<open>timestamp\<close> child of the closing element,
  which is the last child of the root. Indenting the document does not look at that text.
\<close>

lemma blank_JNull [simp]: "blank E JNull = Inr True"
  by (simp add: blank_def)

lemma indent_leaf:
  "indent E (Suc l) (Elem t x JNull []) =
     (Elem t x (JStr (10 # concat (replicate (Suc l) [32, 32]))) [], None)"
  by simp





lemma same_refl [simp]: "same_up_to_timestamp E path a a"
  by (simp add: same_up_to_timestamp_def split: option.splits prod.splits)








end
